theory Spec2Isabelle
  imports
    Main
    "HOL-Library.Char_ord"
    "HOL-Library.List_Lexorder"
    "HOL-Library.AList"
    "HOL-Library.Multiset"
begin

section \<open>Strings, numbers and paths\<close>

text \<open>
  The program (\<^verbatim>\<open>playlist.py\<close>) works on Python strings and \<^verbatim>\<open>pathlib.Path\<close>
  objects. A string is a \<^typ>\<open>string\<close>: a list of characters with codes from 0 to 255, of
  which those below 128 are the ASCII characters. The order on strings is the
  lexicographic order on character codes, which is how Python compares \<^verbatim>\<open>str\<close>. What
  depends on Unicode (\<^verbatim>\<open>str.upper\<close>, and which texts can be encoded as UTF-8) is a
  parameter of the world below. A path is identified with the string \<^verbatim>\<open>str(path)\<close>
  (POSIX flavour, separator \<^verbatim>\<open>/\<close>).
\<close>

type_synonym path = string

text \<open>
  \<^verbatim>\<open>str.upper()\<close> follows the case mapping of Unicode, which is not modelled: the world
  below carries it as \<open>str_upper\<close>, and nothing is assumed about it. \<open>ascii_upper\<close> is what
  it does to a text of ASCII characters, for the concrete worlds.

  \<^verbatim>\<open>str.lower()\<close> is only used to test whether a suffix is one of the audio extensions.
  These are ASCII texts, and no character outside ASCII has a lower-case form made of the
  letters that occur in them, so the test comes out the same when only the ASCII letters
  are changed, as \<open>lower\<close> does.
\<close>

definition upper_char :: "char \<Rightarrow> char" where
  "upper_char c =
     (let n = (of_char c :: nat) in if 97 \<le> n \<and> n \<le> 122 then char_of (n - 32) else c)"

definition lower_char :: "char \<Rightarrow> char" where
  "lower_char c =
     (let n = (of_char c :: nat) in if 65 \<le> n \<and> n \<le> 90 then char_of (n + 32) else c)"

definition ascii_upper :: "string \<Rightarrow> string" where
  "ascii_upper s = map upper_char s"

definition lower :: "string \<Rightarrow> string" where
  "lower s = map lower_char s"

text \<open>\<^verbatim>\<open>sep.join(xs)\<close>.\<close>

fun join :: "string \<Rightarrow> string list \<Rightarrow> string" where
  "join sep [] = []"
| "join sep [x] = x"
| "join sep (x # y # ys) = x @ sep @ join sep (y # ys)"

text \<open>
  \<^verbatim>\<open>str(n)\<close> for a Python integer: the decimal digits, most significant first, with a
  leading minus sign for a negative number.
\<close>

definition digit_char :: "nat \<Rightarrow> char" where
  "digit_char d = char_of (48 + d)"

function str_nat :: "nat \<Rightarrow> string" where
  "str_nat n = (if n < 10 then [digit_char n] else str_nat (n div 10) @ [digit_char (n mod 10)])"
  by pat_completeness auto
termination
  by (relation "measure (\<lambda>n. n)") auto

declare str_nat.simps [simp del]

definition str_int :: "int \<Rightarrow> string" where
  "str_int i = (if i < 0 then ''-'' @ str_nat (nat (- i)) else str_nat (nat i))"

text \<open>
  The parts of \<^verbatim>\<open>pathlib\<close> the program uses (CPython 3.11, POSIX flavour). A
  \<^verbatim>\<open>Path\<close> is kept as a root (empty, \<^verbatim>\<open>/\<close>, or \<^verbatim>\<open>//\<close> for exactly two leading
  separators) and the list of its components, without the empty ones and the ones that
  are a single dot; its text is the root followed by the components with separators
  between them, or a dot when there is nothing. \<open>split_on\<close> is \<^verbatim>\<open>str.split\<close> for a
  separator of one character, and \<open>Path s\<close> is the text of \<^verbatim>\<open>Path(s)\<close>.
  \<^verbatim>\<open>a / b\<close> is \<^verbatim>\<open>b\<close> when \<^verbatim>\<open>b\<close> has a root, and otherwise the root of \<^verbatim>\<open>a\<close> with
  the components of both. \<^verbatim>\<open>name\<close> is the last component; \<^verbatim>\<open>suffix\<close> and \<^verbatim>\<open>stem\<close>
  cut that name at \<^verbatim>\<open>i = name.rfind('.')\<close> when \<^verbatim>\<open>0 < i < len(name) - 1\<close>, and
  otherwise the suffix is empty and the stem is the whole name.
\<close>

fun split_on :: "char \<Rightarrow> string \<Rightarrow> string list" where
  "split_on c [] = [[]]"
| "split_on c (x # xs) =
     (if x = c then [] # split_on c xs
      else case split_on c xs of [] \<Rightarrow> [[x]] | h # t \<Rightarrow> (x # h) # t)"

definition path_root :: "string \<Rightarrow> string" where
  "path_root s =
     (let n = length (takeWhile (\<lambda>x. x = CHR ''/'') s)
      in if n = 0 then [] else if n = 2 then ''//'' else ''/'')"

definition path_parts :: "string \<Rightarrow> string list" where
  "path_parts s = filter (\<lambda>x. x \<noteq> [] \<and> x \<noteq> ''.'') (split_on CHR ''/'' s)"

definition format_path :: "string \<Rightarrow> string list \<Rightarrow> path" where
  "format_path root parts = (if root = [] \<and> parts = [] then ''.'' else root @ join ''/'' parts)"

definition Path :: "string \<Rightarrow> path" where
  "Path s = format_path (path_root s) (path_parts s)"

definition is_absolute :: "path \<Rightarrow> bool" where
  "is_absolute p = (path_root p \<noteq> [])"

definition joinpath :: "path \<Rightarrow> string \<Rightarrow> path" where
  "joinpath d n =
     (if path_root n \<noteq> [] then Path n
      else format_path (path_root d) (path_parts d @ path_parts n))"

definition rfind :: "char \<Rightarrow> string \<Rightarrow> int" where
  "rfind c s =
     (if c \<in> set s then int (length s) - 1 - int (length (takeWhile (\<lambda>x. x \<noteq> c) (rev s)))
      else - 1)"

definition path_name :: "path \<Rightarrow> string" where
  "path_name p = (case path_parts p of [] \<Rightarrow> [] | x # xs \<Rightarrow> last (x # xs))"

definition path_suffix :: "path \<Rightarrow> string" where
  "path_suffix p =
     (let name = path_name p; i = rfind CHR ''.'' name
      in if 0 < i \<and> i < int (length name) - 1 then drop (nat i) name else [])"

definition path_stem :: "path \<Rightarrow> string" where
  "path_stem p =
     (let name = path_name p; i = rfind CHR ''.'' name
      in if 0 < i \<and> i < int (length name) - 1 then take (nat i) name else name)"

definition AUDIO_EXTENSIONS :: "string set" where
  "AUDIO_EXTENSIONS = set [''.mp3'', ''.flac'', ''.wav'', ''.aac'', ''.ogg'', ''.m4a'', ''.wma'']"

section \<open>The world the program runs in\<close>

text \<open>
  Errors are values. \<^verbatim>\<open>sys.exit(n)\<close> and \<^verbatim>\<open>parser.error\<close> raise \<^verbatim>\<open>SystemExit\<close>; a
  failing file operation raises \<^verbatim>\<open>OSError\<close>; writing a text that the encoding of the
  file cannot express raises \<^verbatim>\<open>UnicodeEncodeError\<close>; \<^verbatim>\<open>random.sample\<close> raises
  \<^verbatim>\<open>ValueError\<close>; a dictionary lookup raises \<^verbatim>\<open>KeyError\<close>. The program catches none of
  them, so the interpreter ends with the status of \<^verbatim>\<open>SystemExit\<close>, or with status 1 after
  any other exception.
\<close>

datatype error = SystemExit int | OSError | UnicodeEncodeError | ValueError | KeyError

fun exit_status :: "error + 'a \<Rightarrow> int" where
  "exit_status (Inr _) = 0"
| "exit_status (Inl (SystemExit n)) = n"
| "exit_status (Inl _) = 1"

text \<open>
  An entry of the file system is a file with its content, a directory, or a symbolic
  link with the path it leads to.
\<close>

datatype node = File string | Dir | Link path

text \<open>
  The state of a run and its environment:
  \<^item> \<open>script_dir\<close> is \<^verbatim>\<open>SCRIPT_DIR\<close>, the directory of the program;
  \<^item> \<open>env_file\<close> is what \<^verbatim>\<open>dotenv_values\<close> reads from \<^verbatim>\<open>SCRIPT_DIR/.env\<close> (a key with
    no value maps to \<^verbatim>\<open>None\<close>), or \<open>None\<close> when the file does not exist;
  \<^item> \<open>str_upper\<close> is \<^verbatim>\<open>str.upper\<close>;
  \<^item> \<open>encodable\<close> tells which texts can be encoded as UTF-8 (a file name with bytes that
    could not be decoded is a text that cannot);
  \<^item> \<open>resolve\<close> is \<^verbatim>\<open>Path.resolve\<close>, which depends on the links of the file system;
  \<^item> \<open>nodes\<close> is the file system: the entry at each path that has one;
  \<^item> \<open>link_limit\<close> is the number of symbolic links the operating system follows for one
    path before it gives up;
  \<^item> \<open>rglob\<close> is what \<^verbatim>\<open>folder.rglob("*")\<close> yields, in the order of the traversal;
  \<^item> \<open>io_fails\<close> tells for which paths the operating system refuses to create or write
    (permissions, a missing parent, a full disk);
  \<^item> \<open>stdout\<close> and \<open>stderr\<close> hold the texts given to \<^verbatim>\<open>print\<close>, in order; both streams
    are taken to accept every text;
  \<^item> \<open>scanned\<close> records the folders traversed by \<^verbatim>\<open>scan_audio_files\<close>, in order.
\<close>

record world =
  script_dir :: path
  env_file :: "(string \<times> string option) list option"
  str_upper :: "string \<Rightarrow> string"
  encodable :: "string \<Rightarrow> bool"
  resolve :: "path \<Rightarrow> path"
  nodes :: "path \<rightharpoonup> node"
  link_limit :: nat
  rglob :: "path \<Rightarrow> path list"
  io_fails :: "path \<Rightarrow> bool"
  stdout :: "string list"
  stderr :: "string list"
  scanned :: "path list"

definition print :: "string \<Rightarrow> world \<Rightarrow> world" where
  "print s w = w\<lparr>stdout := stdout w @ [s]\<rparr>"

definition eprint :: "string \<Rightarrow> world \<Rightarrow> world" where
  "eprint s w = w\<lparr>stderr := stderr w @ [s]\<rparr>"

text \<open>
  \<open>follow\<close> goes from a path through the symbolic links to the first path that is not a
  link, and gives up (\<open>None\<close>) after \<open>fuel\<close> links, as the operating system does on a chain
  that is too long or circular. \<open>stat\<close> is the entry found that way: \<open>None\<close> when the chain
  cannot be followed or ends at a path with no entry. \<^verbatim>\<open>Path.exists\<close>, \<^verbatim>\<open>Path.is_file\<close>
  and \<^verbatim>\<open>Path.is_dir\<close> all look at \<open>stat\<close>, so a link that leads nowhere does not exist
  for them although the directory has an entry of that name. Looking at a path is taken
  to be permitted always; a link names the path it leads to in full.
\<close>

fun follow :: "(path \<rightharpoonup> node) \<Rightarrow> nat \<Rightarrow> path \<Rightarrow> path option" where
  "follow nd 0 p = (case nd p of Some (Link q) \<Rightarrow> None | _ \<Rightarrow> Some p)"
| "follow nd (Suc fuel) p = (case nd p of Some (Link q) \<Rightarrow> follow nd fuel q | _ \<Rightarrow> Some p)"

definition stat :: "world \<Rightarrow> path \<Rightarrow> node option" where
  "stat w p = (case follow (nodes w) (link_limit w) p of None \<Rightarrow> None | Some q \<Rightarrow> nodes w q)"

definition path_exists :: "world \<Rightarrow> path \<Rightarrow> bool" where
  "path_exists w p = (stat w p \<noteq> None)"

definition is_file :: "world \<Rightarrow> path \<Rightarrow> bool" where
  "is_file w p = (case stat w p of Some (File _) \<Rightarrow> True | _ \<Rightarrow> False)"

definition is_dir :: "world \<Rightarrow> path \<Rightarrow> bool" where
  "is_dir w p = (stat w p = Some Dir)"

section \<open>Genre registry\<close>

text \<open>
  A Python \<^verbatim>\<open>dict\<close> is an association list with distinct keys in insertion order:
  \<^verbatim>\<open>d[k] = v\<close> replaces the value in place when the key is present and appends the pair
  otherwise, which is \<^const>\<open>AList.update\<close>.
\<close>

type_synonym genres = "(string \<times> path) list"

definition to_folder :: "world \<Rightarrow> string \<Rightarrow> path" where
  "to_folder w v =
     (let p = Path v
      in if \<not> is_absolute p then resolve w (joinpath (script_dir w) p) else p)"

fun load_loop :: "world \<Rightarrow> (string \<times> string option) list \<Rightarrow> genres \<Rightarrow> genres" where
  "load_loop w [] genres = genres"
| "load_loop w ((key, val) # rest) genres =
     (case val of
        None \<Rightarrow> load_loop w rest genres
      | Some v \<Rightarrow>
          if v \<noteq> [] then load_loop w rest (AList.update (str_upper w key) (to_folder w v) genres)
          else load_loop w rest genres)"

definition load_genres :: "world \<Rightarrow> (error + genres) \<times> world" where
  "load_genres w =
     (case env_file w of
        None \<Rightarrow>
          (Inl (SystemExit 1),
           eprint ''Create one with genre=folder mappings. See .env.example.''
             (eprint (''Error: No .env file found at '' @ joinpath (script_dir w) ''.env'') w))
      | Some vals \<Rightarrow>
          let genres = load_loop w vals []
          in if genres = [] then
               (Inl (SystemExit 1), eprint ''Error: No genre mappings found in .env file.'' w)
             else (Inr genres, w))"

definition list_genres :: "genres \<Rightarrow> world \<Rightarrow> world" where
  "list_genres genres w =
     foldl (\<lambda>w (name, p).
              print (''  '' @ name @ '': '' @ p @ '' ['' @
                     (if path_exists w p then ''OK'' else ''NOT FOUND'') @ '']'') w)
       (print ''Configured genres:'' w) (sort_key fst genres)"

section \<open>Scanning and collecting songs\<close>

definition scan_audio_files :: "path \<Rightarrow> world \<Rightarrow> path list \<times> world" where
  "scan_audio_files folder w =
     (filter (\<lambda>f. is_file w f \<and> lower (path_suffix f) \<in> AUDIO_EXTENSIONS)
        (rglob w folder),
      w\<lparr>scanned := scanned w @ [folder]\<rparr>)"

fun collect_loop ::
  "genres \<Rightarrow> string list \<Rightarrow> path list \<Rightarrow> world \<Rightarrow> (error + path list) \<times> world" where
  "collect_loop genres [] songs w = (Inr songs, w)"
| "collect_loop genres (name # names) songs w =
     (case map_of genres name of
        None \<Rightarrow> (Inl KeyError, w)
      | Some folder \<Rightarrow>
          if \<not> path_exists w folder then
            collect_loop genres names songs
              (eprint (''Warning: Folder for '' @ name @ '' does not exist: '' @ folder) w)
          else
            (case scan_audio_files folder w of
               (found, w1) \<Rightarrow>
                 collect_loop genres names (songs @ found)
                   (print (''  '' @ name @ '': '' @ str_nat (length found) @ '' files found'') w1)))"

definition collect_songs ::
  "genres \<Rightarrow> string list option \<Rightarrow> world \<Rightarrow> (error + path list) \<times> world" where
  "collect_songs genres requested w =
     (if requested \<noteq> None \<and> requested \<noteq> Some [] then
        let selected = str_upper w ` set (the requested);
            unknown = selected - set (map fst genres)
        in if unknown \<noteq> {} then
             (Inl (SystemExit 1),
              eprint (''Available: '' @ join '', '' (sorted_list_of_set (set (map fst genres))))
                (eprint (''Error: Unknown genre(s): '' @ join '', '' (sorted_list_of_set unknown))
                   w))
           else collect_loop genres (sorted_list_of_set selected) [] w
      else collect_loop genres (sorted_list_of_set (set (map fst genres))) [] w)"

section \<open>Writing the playlist\<close>

text \<open>
  \<^verbatim>\<open>open(filepath, "w", encoding="utf-8")\<close> follows symbolic links and truncates or
  creates the file they lead to, unless the links cannot be followed, the path is a
  directory or the operating system refuses; \<open>open_w\<close> gives the path of the file that is
  written. A write appends to what the file holds. It first encodes its text, and raises
  \<^verbatim>\<open>UnicodeEncodeError\<close> when that cannot be done; the file is then closed with what was
  written before. The header and the line terminator can always be encoded, so a line
  can be written when its entry can be encoded.
\<close>

definition open_w :: "path \<Rightarrow> world \<Rightarrow> error + path" where
  "open_w p w =
     (case follow (nodes w) (link_limit w) p of
        None \<Rightarrow> Inl OSError
      | Some q \<Rightarrow> if nodes w q = Some Dir \<or> io_fails w q then Inl OSError else Inr q)"

definition file_write :: "path \<Rightarrow> string \<Rightarrow> world \<Rightarrow> world" where
  "file_write q s w =
     w\<lparr>nodes := (nodes w)(q \<mapsto>
          File ((case nodes w q of Some (File content) \<Rightarrow> content | _ \<Rightarrow> []) @ s))\<rparr>"

fun write_lines :: "path \<Rightarrow> string list \<Rightarrow> world \<Rightarrow> (error + unit) \<times> world" where
  "write_lines q [] w = (Inr (), w)"
| "write_lines q (entry # rest) w =
     (if \<not> encodable w entry then (Inl UnicodeEncodeError, w)
      else write_lines q rest (file_write q (entry @ ''\<newline>'') w))"

definition write_m3u :: "path \<Rightarrow> string list \<Rightarrow> world \<Rightarrow> (error + unit) \<times> world" where
  "write_m3u filepath entries w =
     (case open_w filepath w of
        Inl e \<Rightarrow> (Inl e, w)
      | Inr q \<Rightarrow>
          write_lines q entries
            (file_write q ''#EXTM3U\<newline>'' (w\<lparr>nodes := (nodes w)(q \<mapsto> File [])\<rparr>)))"

section \<open>Portable copy\<close>

text \<open>
  \<^verbatim>\<open>unique_filename\<close> is a \<^verbatim>\<open>while\<close> loop with no bound of its own, so its model
  returns an option: \<open>None\<close> when the loop never ends. The counter starts at 2 and is only
  incremented, so it is a natural number. \<open>path_stem name\<close> and \<open>path_suffix name\<close> are
  \<^verbatim>\<open>Path(name).stem\<close> and \<^verbatim>\<open>Path(name).suffix\<close>.
\<close>

partial_function (option) unique_loop ::
  "world \<Rightarrow> path \<Rightarrow> string \<Rightarrow> string \<Rightarrow> string \<Rightarrow> nat \<Rightarrow> string option" where
  "unique_loop w target_dir stem suffix candidate counter =
     (if path_exists w (joinpath target_dir candidate) then
        unique_loop w target_dir stem suffix (stem @ ''_'' @ str_nat counter @ suffix) (counter + 1)
      else Some candidate)"

declare unique_loop.simps [code]

definition unique_filename :: "world \<Rightarrow> path \<Rightarrow> string \<Rightarrow> string option" where
  "unique_filename w target_dir name =
     unique_loop w target_dir (path_stem name) (path_suffix name) name 2"

text \<open>
  \<^verbatim>\<open>Path.mkdir(parents=True, exist_ok=True)\<close> creates the directory when the path has
  no entry, and otherwise succeeds exactly when the path is (or leads to) a directory.

  \<^verbatim>\<open>shutil.copy2(src, dst)\<close> copies into the directory when \<open>dst\<close> is one, refuses to
  copy a file onto itself, needs a source that is a file, and writes the file that \<open>dst\<close>
  leads to through symbolic links.
\<close>

definition mkdir :: "path \<Rightarrow> world \<Rightarrow> (error + unit) \<times> world" where
  "mkdir d w =
     (case nodes w d of
        None \<Rightarrow>
          if io_fails w d then (Inl OSError, w) else (Inr (), w\<lparr>nodes := (nodes w)(d \<mapsto> Dir)\<rparr>)
      | Some _ \<Rightarrow> if is_dir w d then (Inr (), w) else (Inl OSError, w))"

definition copy2 :: "path \<Rightarrow> path \<Rightarrow> world \<Rightarrow> (error + unit) \<times> world" where
  "copy2 src dst w =
     (let dst1 = (if is_dir w dst then joinpath dst (path_name src) else dst)
      in case stat w src of
           Some (File content) \<Rightarrow>
             (case follow (nodes w) (link_limit w) dst1 of
                None \<Rightarrow> (Inl OSError, w)
              | Some q \<Rightarrow>
                  if follow (nodes w) (link_limit w) src = Some q \<or> nodes w q = Some Dir \<or>
                     io_fails w q
                  then (Inl OSError, w)
                  else (Inr (), w\<lparr>nodes := (nodes w)(q \<mapsto> File content)\<rparr>))
         | _ \<Rightarrow> (Inl OSError, w))"

fun copy_loop ::
  "path \<Rightarrow> nat \<Rightarrow> nat \<Rightarrow> path list \<Rightarrow> string list \<Rightarrow> world \<Rightarrow>
   ((error + string list) \<times> world) option" where
  "copy_loop target_dir len_songs i [] copied_names w = Some (Inr copied_names, w)"
| "copy_loop target_dir len_songs i (song # rest) copied_names w =
     (case unique_filename w target_dir (path_name song) of
        None \<Rightarrow> None
      | Some dest_name \<Rightarrow>
          (case copy2 song (joinpath target_dir dest_name)
                  (print (''  ['' @ str_nat i @ ''/'' @ str_nat len_songs @ ''] Copying '' @
                          path_name song @ '' -> '' @ dest_name) w) of
             (Inl e, w1) \<Rightarrow> Some (Inl e, w1)
           | (Inr _, w1) \<Rightarrow>
               copy_loop target_dir len_songs (i + 1) rest (copied_names @ [dest_name]) w1))"

definition copy_to_directory ::
  "path list \<Rightarrow> path \<Rightarrow> string \<Rightarrow> world \<Rightarrow> ((error + unit) \<times> world) option" where
  "copy_to_directory songs target_dir output_name w =
     (case mkdir target_dir w of
        (Inl e, w1) \<Rightarrow> Some (Inl e, w1)
      | (Inr _, w1) \<Rightarrow>
          (case copy_loop target_dir (length songs) 1 songs [] w1 of
             None \<Rightarrow> None
           | Some (Inl e, w2) \<Rightarrow> Some (Inl e, w2)
           | Some (Inr copied_names, w2) \<Rightarrow>
               (case write_m3u (joinpath target_dir output_name) copied_names w2 of
                  (Inl e, w3) \<Rightarrow> Some (Inl e, w3)
                | (Inr _, w3) \<Rightarrow>
                    Some (Inr (),
                      print (''  '' @ str_nat (length copied_names) @ '' files copied to '' @
                             target_dir)
                        (print (''\<newline>Portable playlist written to '' @
                                joinpath target_dir output_name) w3)))))"

section \<open>Sampling\<close>

text \<open>
  \<^verbatim>\<open>random.sample(population, k)\<close> of the standard library (CPython 3.11) raises
  \<^verbatim>\<open>ValueError\<close> unless \<^verbatim>\<open>0 <= k <= n\<close> and then draws \<open>k\<close> positions without
  replacement. The model is its pool algorithm: step \<open>i\<close> takes \<^verbatim>\<open>j = randbelow(n - i)\<close>,
  yields \<^verbatim>\<open>pool[j]\<close> and moves \<^verbatim>\<open>pool[n - i - 1]\<close> into the vacancy. The random
  source \<open>rng\<close> gives the raw number behind the \<open>i\<close>-th draw, and \<^verbatim>\<open>randbelow(m)\<close> can
  return any number below \<open>m\<close>. (For a large population and a small \<open>k\<close> the library
  tracks the chosen positions in a set instead and redraws on a collision; the results it
  can return are the same.)
\<close>

definition randbelow :: "(nat \<Rightarrow> nat) \<Rightarrow> nat \<Rightarrow> nat \<Rightarrow> nat" where
  "randbelow rng i m = rng i mod m"

function sample_loop ::
  "(nat \<Rightarrow> nat) \<Rightarrow> nat \<Rightarrow> nat \<Rightarrow> nat \<Rightarrow> 'a list \<Rightarrow> 'a list \<Rightarrow> 'a list" where
  "sample_loop rng n k i pool result =
     (if i < k then
        sample_loop rng n k (i + 1)
          (pool[randbelow rng i (n - i) := pool ! (n - i - 1)])
          (result @ [pool ! randbelow rng i (n - i)])
      else result)"
  by pat_completeness auto
termination
  by (relation "measure (\<lambda>(rng, n, k, i, pool, result). k - i)") auto

declare sample_loop.simps [simp del]

definition random_sample :: "(nat \<Rightarrow> nat) \<Rightarrow> 'a list \<Rightarrow> int \<Rightarrow> error + 'a list" where
  "random_sample rng population k =
     (if \<not> (0 \<le> k \<and> k \<le> int (length population)) then Inl ValueError
      else Inr (sample_loop rng (length population) (nat k) 0 population []))"

section \<open>The command line\<close>

text \<open>
  The parsed arguments: \<^verbatim>\<open>--genres\<close>, \<^verbatim>\<open>--count\<close>, \<^verbatim>\<open>--output\<close>, \<^verbatim>\<open>--copy-to\<close> and
  \<^verbatim>\<open>--list\<close>. \<^verbatim>\<open>parser.error(message)\<close> writes the message (after the usage line, which
  is left out here) to the diagnostic stream and exits with status 2.
\<close>

record args =
  arg_genres :: "string list option"
  arg_count :: "int option"
  arg_output :: string
  arg_copy_to :: "string option"
  arg_list :: bool

definition parser_error :: "string \<Rightarrow> world \<Rightarrow> (error + 'a) \<times> world" where
  "parser_error message w = (Inl (SystemExit 2), eprint (''error: '' @ message) w)"

text \<open>
  Lines 159 to 168 of \<^verbatim>\<open>main\<close>: the check for an empty collection, the clamped count with
  its note, the sample and the report of the selection.
\<close>

definition main_select ::
  "int \<Rightarrow> path list \<Rightarrow> (nat \<Rightarrow> nat) \<Rightarrow> world \<Rightarrow> (error + path list) \<times> world" where
  "main_select requested songs rng w =
     (if songs = [] then
        (Inl (SystemExit 1),
         eprint ''Error: No audio files found in the selected genre folders.'' w)
      else
        let count = min requested (int (length songs));
            w1 = (if count < requested then
                    print (''Note: Only '' @ str_int count @ '' files available (requested '' @
                           str_int requested @ '').'') w
                  else w)
        in (case random_sample rng songs count of
              Inl e \<Rightarrow> (Inl e, w1)
            | Inr selected \<Rightarrow>
                (Inr selected, print (''\<newline>Selected '' @ str_int count @ '' songs.'') w1)))"

text \<open>Lines 170 to 178 of \<^verbatim>\<open>main\<close>: the portable copy, or the playlist of source paths.\<close>

definition main_output ::
  "args \<Rightarrow> path list \<Rightarrow> world \<Rightarrow> ((error + unit) \<times> world) option" where
  "main_output a selected w =
     (if arg_copy_to a \<noteq> None \<and> arg_copy_to a \<noteq> Some [] then
        let target_dir = Path (the (arg_copy_to a))
        in copy_to_directory selected target_dir (arg_output a)
             (print (''\<newline>Copying files to '' @ target_dir @ ''...'') w)
      else
        let output_path = Path (arg_output a)
        in case write_m3u output_path selected w of
             (Inl e, w1) \<Rightarrow> Some (Inl e, w1)
           | (Inr _, w1) \<Rightarrow> Some (Inr (), print (''Playlist written to '' @ output_path) w1))"

definition main :: "args \<Rightarrow> (nat \<Rightarrow> nat) \<Rightarrow> world \<Rightarrow> ((error + unit) \<times> world) option" where
  "main a rng w =
     (case load_genres w of
        (Inl e, w1) \<Rightarrow> Some (Inl e, w1)
      | (Inr genres, w1) \<Rightarrow>
          if arg_list a then Some (Inr (), list_genres genres w1)
          else
            (case arg_count a of
               None \<Rightarrow> Some (parser_error ''--count / -n is required when not using --list'' w1)
             | Some n \<Rightarrow>
                 if n < 1 then Some (parser_error ''--count must be at least 1'' w1)
                 else
                   (case collect_songs genres (arg_genres a) (print ''Scanning folders...'' w1) of
                      (Inl e, w2) \<Rightarrow> Some (Inl e, w2)
                    | (Inr songs, w2) \<Rightarrow>
                        (case main_select n songs rng w2 of
                           (Inl e, w3) \<Rightarrow> Some (Inl e, w3)
                         | (Inr selected, w3) \<Rightarrow> main_output a selected w3))))"

section \<open>Notions used in the statements\<close>





text \<open>
  A later world of a run extends an earlier one when the operating system refuses and the
  encoding accepts what they did before, every path leads through the links to where it
  led before, what existed is still there as it was, and no directory is new.
\<close>

definition extends :: "world \<Rightarrow> world \<Rightarrow> bool" where
  "extends w w1 =
     (io_fails w1 = io_fails w \<and> encodable w1 = encodable w \<and>
      finite (dom (nodes w1)) = finite (dom (nodes w)) \<and>
      (\<forall>p. follow (nodes w1) (link_limit w1) p = follow (nodes w) (link_limit w) p) \<and>
      (\<forall>p. stat w p \<noteq> None \<longrightarrow> stat w1 p = stat w p) \<and>
      (\<forall>p. stat w1 p = Some Dir \<longrightarrow> stat w p = Some Dir) \<and>
      set (stdout w) \<subseteq> set (stdout w1))"

text \<open>
  The folder of a registered genre, what a scan of a folder finds, and the warning for a
  genre whose folder does not exist.
\<close>

definition folder_of :: "genres \<Rightarrow> string \<Rightarrow> path" where
  "folder_of genres name = the (map_of genres name)"

definition audio_in :: "world \<Rightarrow> path \<Rightarrow> path list" where
  "audio_in w folder = fst (scan_audio_files folder w)"

definition missing_warning :: "genres \<Rightarrow> string \<Rightarrow> string" where
  "missing_warning genres name =
     ''Warning: Folder for '' @ name @ '' does not exist: '' @ folder_of genres name"

text \<open>
  The entries of the configuration that have a value and whose value is not empty, in
  order, and the registry entry that such a configuration entry stands for.
\<close>

fun usable :: "(string \<times> string option) list \<Rightarrow> (string \<times> string) list" where
  "usable [] = []"
| "usable ((k, None) # rest) = usable rest"
| "usable ((k, Some v) # rest) = (if v \<noteq> [] then (k, v) # usable rest else usable rest)"

definition entry_of :: "world \<Rightarrow> string \<times> string \<Rightarrow> string \<times> path" where
  "entry_of w e = (str_upper w (fst e), to_folder w (snd e))"

text \<open>
  The text of a playlist, the note about a clamped count, and the path of the playlist
  that a run writes.
\<close>

definition m3u_text :: "string list \<Rightarrow> string" where
  "m3u_text entries = ''#EXTM3U\<newline>'' @ concat (map (\<lambda>entry. entry @ ''\<newline>'') entries)"






section \<open>Concrete worlds\<close>

text \<open>
  In the concrete worlds \<^verbatim>\<open>str.upper\<close> is what it is on ASCII texts, the character with
  code 255 stands for a byte of a file name that could not be decoded, so that a text can
  be encoded when it is free of it, and the operating system follows up to 40 links.
\<close>

definition plain_text :: "string \<Rightarrow> bool" where
  "plain_text s = (CHR 0xFF \<notin> set s)"

text \<open>A world in which a playlist file with other content is already there.\<close>

definition m3u_world :: world where
  "m3u_world =
     \<lparr>script_dir = ''/opt/tool'', env_file = None, str_upper = ascii_upper,
      encodable = plain_text, resolve = (\<lambda>p. p),
      nodes = [''playlist.m3u'' \<mapsto> File ''stale content''], link_limit = 40,
      rglob = (\<lambda>p. []), io_fails = (\<lambda>p. False), stdout = [], stderr = [], scanned = []\<rparr>"

text \<open>Entries of which the second is the name of a file with a byte that is not text.\<close>

definition raw_entries :: "string list" where
  "raw_entries = [''a.mp3'', [CHR 0xFF] @ ''.mp3'', ''b.mp3'']"




text \<open>Collected songs: three different paths, and a collection in which a path occurs twice.\<close>

definition plain_songs :: "path list" where
  "plain_songs = [''/m/a.mp3'', ''/m/b.mp3'', ''/m/c.mp3'']"

definition dup_songs :: "path list" where
  "dup_songs = [''/m/a.mp3'', ''/m/a.mp3'', ''/m/b.mp3'']"

text \<open>
  A music library: the folder \<^verbatim>\<open>/music/rock\<close> holds three audio files and a text file,
  the folder \<^verbatim>\<open>/music/jazz\<close> of the configuration does not exist.
\<close>

definition music_world :: world where
  "music_world =
     \<lparr>script_dir = ''/opt/tool'',
      env_file = Some [(''rock'', Some ''/music/rock''), (''jazz'', Some ''/music/jazz'')],
      str_upper = ascii_upper, encodable = plain_text,
      resolve = (\<lambda>p. p),
      nodes = [''/music/rock'' \<mapsto> Dir, ''/music/rock/a.mp3'' \<mapsto> File ''A'',
               ''/music/rock/b.MP3'' \<mapsto> File ''B'', ''/music/rock/notes.txt'' \<mapsto> File ''N'',
               ''/music/rock/c.flac'' \<mapsto> File ''C''],
      link_limit = 40,
      rglob = (\<lambda>p. if p = ''/music/rock''
                    then [''/music/rock/a.mp3'', ''/music/rock/b.MP3'', ''/music/rock/notes.txt'',
                          ''/music/rock/c.flac'']
                    else []),
      io_fails = (\<lambda>p. False), stdout = [], stderr = [], scanned = []\<rparr>"

definition rock_jazz :: genres where
  "rock_jazz = [(''ROCK'', ''/music/rock''), (''JAZZ'', ''/music/jazz'')]"

text \<open>A registry in which two genres share a folder.\<close>

definition mix_registry :: genres where
  "mix_registry =
     [(''ROCK'', ''/music/rock''), (''JAZZ'', ''/music/jazz''), (''MIX'', ''/music/rock'')]"

text \<open>The command line \<^verbatim>\<open>--genres pop --count 3\<close>.\<close>

definition pop_args :: args where
  "pop_args =
     \<lparr>arg_genres = Some [''pop''], arg_count = Some 3, arg_output = ''playlist.m3u'',
      arg_copy_to = None, arg_list = False\<rparr>"

text \<open>
  A configuration with an absolute path, a relative path, an empty value, a key without
  a value, and a key that differs from the first only in case, with a path that ends in a
  separator. Resolving a relative path here would start from the working directory
  \<^verbatim>\<open>/cwd\<close>, and \<^verbatim>\<open>/link\<close> is a symbolic link to \<^verbatim>\<open>/music\<close>.
\<close>

definition env_resolve :: "path \<Rightarrow> path" where
  "env_resolve p =
     (if p = ''/link/rock'' then ''/music/rock''
      else if is_absolute p then p else ''/cwd/'' @ p)"

definition env_world :: world where
  "env_world =
     \<lparr>script_dir = ''/opt/tool'',
      env_file = Some [(''rock'', Some ''/music/rock''), (''jazz'', Some ''jazz''),
                       (''pop'', Some []), (''folk'', None), (''Rock'', Some ''/r2/'')],
      str_upper = ascii_upper, encodable = plain_text,
      resolve = env_resolve, nodes = Map.empty, link_limit = 40,
      rglob = (\<lambda>p. []), io_fails = (\<lambda>p. False), stdout = [], stderr = [], scanned = []\<rparr>"

text \<open>A configuration file that exists and has no usable entry.\<close>

definition blank_world :: world where
  "blank_world = env_world\<lparr>env_file := Some [(''pop'', Some []), (''folk'', None)]\<rparr>"

text \<open>A configuration whose only folder is an absolute path through the link.\<close>

definition linked_world :: world where
  "linked_world = env_world\<lparr>env_file := Some [(''rock'', Some ''/link/rock'')]\<rparr>"

text \<open>
  Command lines without \<^verbatim>\<open>--list\<close>: \<^verbatim>\<open>--count 0\<close> and no count at all; the command line
  \<^verbatim>\<open>--list --count 0\<close>; and a random source.
\<close>

definition zero_args :: args where
  "zero_args =
     \<lparr>arg_genres = None, arg_count = Some 0, arg_output = ''playlist.m3u'',
      arg_copy_to = None, arg_list = False\<rparr>"

definition no_count_args :: args where
  "no_count_args = zero_args\<lparr>arg_count := None\<rparr>"

definition list_zero_args :: args where
  "list_zero_args = zero_args\<lparr>arg_list := True\<rparr>"

definition identity_rng :: "nat \<Rightarrow> nat" where
  "identity_rng i = i"






section \<open>Following links\<close>

lemma follow_self: "\<forall>t. nd p \<noteq> Some (Link t) \<Longrightarrow> follow nd fuel p = Some p"
  by (cases fuel) (auto split: option.splits node.splits)

lemma follow_not_link: "follow nd fuel p = Some q \<Longrightarrow> nd q \<noteq> Some (Link t)"
  by (induction fuel arbitrary: p) (auto split: option.splits node.splits)

lemma follow_update:
  assumes "\<forall>t. nd q \<noteq> Some (Link t)" and "\<forall>t. v \<noteq> Link t"
  shows "follow (nd(q \<mapsto> v)) fuel p = follow nd fuel p"
  using assms by (induction fuel arbitrary: p) (auto split: option.splits node.splits)



section \<open>The playlist writer\<close>

lemma file_write_File:
  "nodes w q = Some (File content) \<Longrightarrow>
   file_write q s w = w\<lparr>nodes := (nodes w)(q \<mapsto> File (content @ s))\<rparr>"
  by (simp add: file_write_def)

lemma write_lines_ok:
  assumes "\<forall>entry\<in>set entries. encodable w entry" and "nodes w q = Some (File content)"
  shows "write_lines q entries w =
           (Inr (), w\<lparr>nodes := (nodes w)(q \<mapsto>
                        File (content @ concat (map (\<lambda>entry. entry @ ''\<newline>'') entries)))\<rparr>)"
  using assms
proof (induction entries arbitrary: w content)
  case Nil
  then have "(nodes w)(q \<mapsto> File content) = nodes w" by (simp add: fun_upd_idem)
  then show ?case by simp
next
  case (Cons entry rest)
  let ?w1 = "w\<lparr>nodes := (nodes w)(q \<mapsto> File (content @ entry @ ''\<newline>''))\<rparr>"
  have fw: "file_write q (entry @ ''\<newline>'') w = ?w1"
    using Cons.prems(2) by (simp add: file_write_File)
  have step: "write_lines q (entry # rest) w = write_lines q rest ?w1"
    using Cons.prems(1) fw by simp
  have "write_lines q rest ?w1 =
          (Inr (), ?w1\<lparr>nodes := (nodes ?w1)(q \<mapsto>
             File ((content @ entry @ ''\<newline>'') @
                   concat (map (\<lambda>entry. entry @ ''\<newline>'') rest)))\<rparr>)"
    using Cons.prems(1) by (intro Cons.IH) simp_all
  moreover have "?w1\<lparr>nodes := (nodes ?w1)(q \<mapsto>
             File ((content @ entry @ ''\<newline>'') @
                   concat (map (\<lambda>entry. entry @ ''\<newline>'') rest)))\<rparr> =
        w\<lparr>nodes := (nodes w)(q \<mapsto>
             File (content @ concat (map (\<lambda>entry. entry @ ''\<newline>'') (entry # rest))))\<rparr>"
    by simp
  ultimately show ?case using step by (simp only:)
qed

lemma write_m3u_ok:
  assumes "follow (nodes w) (link_limit w) p = Some q"
    and "nodes w q \<noteq> Some Dir" and "\<not> io_fails w q"
    and "\<forall>entry\<in>set entries. encodable w entry"
  shows "write_m3u p entries w =
           (Inr (), w\<lparr>nodes := (nodes w)(q \<mapsto> File (m3u_text entries))\<rparr>)"
proof -
  let ?w0 = "w\<lparr>nodes := (nodes w)(q \<mapsto> File [])\<rparr>"
  let ?w1 = "w\<lparr>nodes := (nodes w)(q \<mapsto> File ''#EXTM3U\<newline>'')\<rparr>"
  have op: "open_w p w = Inr q" using assms(1-3) by (simp add: open_w_def)
  have hd: "file_write q ''#EXTM3U\<newline>'' ?w0 = ?w1" by (simp add: file_write_def)
  have "write_lines q entries ?w1 =
          (Inr (), ?w1\<lparr>nodes := (nodes ?w1)(q \<mapsto>
             File (''#EXTM3U\<newline>'' @ concat (map (\<lambda>entry. entry @ ''\<newline>'') entries)))\<rparr>)"
    using assms(4) by (intro write_lines_ok) simp_all
  with op hd show ?thesis by (simp add: write_m3u_def m3u_text_def)
qed

text \<open>
  Claim C4, as the program has it. When the file can be opened for writing (the path
  leads, through symbolic links if it is one, to a path that is not a directory and that
  the operating system does not refuse) and every entry can be encoded as UTF-8,
  \<^const>\<open>write_m3u\<close> leaves a file there that holds the header line \<^verbatim>\<open>#EXTM3U\<close> and then
  every entry, verbatim and in order, each followed by a newline. What the file held
  before does not matter, and no other path changes. For the entries \<^verbatim>\<open>a.mp3\<close> and
  \<^verbatim>\<open>b.mp3\<close> the content is exactly \<^verbatim>\<open>#EXTM3U\na.mp3\nb.mp3\n\<close> (see the witness, which
  overwrites a stale file).
\<close>

theorem write_m3u_content:
  assumes "follow (nodes w) (link_limit w) filepath = Some q"
    and "nodes w q \<noteq> Some Dir" and "\<not> io_fails w q"
    and "\<forall>entry\<in>set entries. encodable w entry"
  shows "\<exists>w'. write_m3u filepath entries w = (Inr (), w') \<and>
           stat w' filepath =
             Some (File (''#EXTM3U\<newline>'' @ concat (map (\<lambda>entry. entry @ ''\<newline>'') entries))) \<and>
           (\<forall>p. p \<noteq> q \<longrightarrow> nodes w' p = nodes w p)"
proof -
  let ?w' = "w\<lparr>nodes := (nodes w)(q \<mapsto> File (m3u_text entries))\<rparr>"
  have run: "write_m3u filepath entries w = (Inr (), ?w')" using assms by (rule write_m3u_ok)
  have "\<forall>t. nodes w q \<noteq> Some (Link t)" using assms(1) by (auto dest: follow_not_link)
  then have "follow (nodes ?w') (link_limit ?w') filepath = Some q"
    using assms(1) by (simp add: follow_update)
  then have "stat ?w' filepath = Some (File (m3u_text entries))" by (simp add: stat_def)
  with run show ?thesis by (simp add: m3u_text_def)
qed

theorem write_m3u_content_witness:
  "follow (nodes m3u_world) (link_limit m3u_world) ''playlist.m3u'' = Some ''playlist.m3u'' \<and>
   nodes m3u_world ''playlist.m3u'' = Some (File ''stale content'') \<and>
   \<not> io_fails m3u_world ''playlist.m3u'' \<and>
   list_all (encodable m3u_world) [''a.mp3'', ''b.mp3''] \<and>
   (\<exists>w'. write_m3u ''playlist.m3u'' [''a.mp3'', ''b.mp3''] m3u_world = (Inr (), w') \<and>
      stat w' ''playlist.m3u'' = Some (File ''#EXTM3U\<newline>a.mp3\<newline>b.mp3\<newline>'') \<and>
      (\<forall>p. p \<noteq> ''playlist.m3u'' \<longrightarrow> nodes w' p = nodes m3u_world p))"
proof -
  have f: "follow (nodes m3u_world) (link_limit m3u_world) ''playlist.m3u'' = Some ''playlist.m3u''"
    by (simp add: m3u_world_def follow_self)
  have n: "nodes m3u_world ''playlist.m3u'' = Some (File ''stale content'')"
    by (simp add: m3u_world_def)
  then have d: "nodes m3u_world ''playlist.m3u'' \<noteq> Some Dir" by simp
  have i: "\<not> io_fails m3u_world ''playlist.m3u''" by (simp add: m3u_world_def)
  have e: "\<forall>entry\<in>set [''a.mp3'', ''b.mp3'']. encodable m3u_world entry"
    by (simp add: m3u_world_def plain_text_def)
  then have e': "list_all (encodable m3u_world) [''a.mp3'', ''b.mp3'']"
    by (simp only: list_all_iff)
  from write_m3u_content [OF f d i e] f n i e' show ?thesis by simp
qed

text \<open>
  Claim C4 as it is written fails for an entry that cannot be encoded, such as the name of
  a file with a byte that is not text: the file is opened, the write of that entry raises
  \<^verbatim>\<open>UnicodeEncodeError\<close>, and the playlist is left with the header and the entries before
  it.
\<close>

theorem raw_entry_breaks_playlist:
  "open_w ''playlist.m3u'' m3u_world = Inr ''playlist.m3u'' \<and>
   \<not> encodable m3u_world (raw_entries ! 1) \<and>
   fst (write_m3u ''playlist.m3u'' raw_entries m3u_world) = Inl UnicodeEncodeError \<and>
   exit_status (fst (write_m3u ''playlist.m3u'' raw_entries m3u_world)) = 1 \<and>
   stat (snd (write_m3u ''playlist.m3u'' raw_entries m3u_world)) ''playlist.m3u'' =
     Some (File ''#EXTM3U\<newline>a.mp3\<newline>'') \<and>
   m3u_text raw_entries \<noteq> ''#EXTM3U\<newline>a.mp3\<newline>''"
proof -
  have "open_w ''playlist.m3u'' m3u_world = Inr ''playlist.m3u''" by code_simp
  moreover have "\<not> encodable m3u_world (raw_entries ! 1)" by code_simp
  moreover have "fst (write_m3u ''playlist.m3u'' raw_entries m3u_world) = Inl UnicodeEncodeError"
    by code_simp
  moreover have "exit_status (fst (write_m3u ''playlist.m3u'' raw_entries m3u_world)) = 1"
    by code_simp
  moreover have
    "stat (snd (write_m3u ''playlist.m3u'' raw_entries m3u_world)) ''playlist.m3u'' =
       Some (File ''#EXTM3U\<newline>a.mp3\<newline>'')"
    by code_simp
  moreover have "m3u_text raw_entries \<noteq> ''#EXTM3U\<newline>a.mp3\<newline>''" by code_simp
  ultimately show ?thesis by simp
qed

section \<open>Unique file names\<close>






























section \<open>Printing changes only the streams\<close>

lemma print_fields [simp]:
  "nodes (print s w) = nodes w" "io_fails (print s w) = io_fails w"
  "rglob (print s w) = rglob w" "stderr (print s w) = stderr w"
  "scanned (print s w) = scanned w" "stdout (print s w) = stdout w @ [s]"
  "env_file (print s w) = env_file w" "script_dir (print s w) = script_dir w"
  "resolve (print s w) = resolve w" "str_upper (print s w) = str_upper w"
  "encodable (print s w) = encodable w" "link_limit (print s w) = link_limit w"
  by (simp_all add: print_def)

lemma eprint_fields [simp]:
  "nodes (eprint s w) = nodes w" "io_fails (eprint s w) = io_fails w"
  "rglob (eprint s w) = rglob w" "stderr (eprint s w) = stderr w @ [s]"
  "scanned (eprint s w) = scanned w" "stdout (eprint s w) = stdout w"
  "env_file (eprint s w) = env_file w" "script_dir (eprint s w) = script_dir w"
  "resolve (eprint s w) = resolve w" "str_upper (eprint s w) = str_upper w"
  "encodable (eprint s w) = encodable w" "link_limit (eprint s w) = link_limit w"
  by (simp_all add: eprint_def)

lemma stat_cong:
  assumes "nodes w1 = nodes w" and "link_limit w1 = link_limit w"
  shows "stat w1 p = stat w p"
  unfolding stat_def assms by (rule refl)

lemma path_exists_cong:
  "nodes w1 = nodes w \<Longrightarrow> link_limit w1 = link_limit w \<Longrightarrow> path_exists w1 p = path_exists w p"
  using stat_cong [of w1 w p] by (simp add: path_exists_def)

lemma is_file_cong:
  "nodes w1 = nodes w \<Longrightarrow> link_limit w1 = link_limit w \<Longrightarrow> is_file w1 p = is_file w p"
  using stat_cong [of w1 w p] by (simp add: is_file_def)


lemma stat_print [simp]: "stat (print s w) p = stat w p" "stat (eprint s w) p = stat w p"
  by (rule stat_cong; simp)+

lemma path_exists_print [simp]:
  "path_exists (print s w) p = path_exists w p" "path_exists (eprint s w) p = path_exists w p"
  by (simp_all add: path_exists_def)

lemma is_file_print [simp]:
  "is_file (print s w) p = is_file w p" "is_file (eprint s w) p = is_file w p"
  by (simp_all add: is_file_def)

lemma is_dir_print [simp]:
  "is_dir (print s w) p = is_dir w p" "is_dir (eprint s w) p = is_dir w p"
  by (simp_all add: is_dir_def)

section \<open>Worlds that extend a world\<close>



lemma extends_same_nodes:
  assumes "nodes w1 = nodes w" and "link_limit w1 = link_limit w"
    and "io_fails w1 = io_fails w" and "encodable w1 = encodable w"
    and "set (stdout w) \<subseteq> set (stdout w1)"
  shows "extends w w1"
  using assms stat_cong [of w1 w] by (simp add: extends_def)


lemma extends_eprint: "extends w (eprint s w)"
  by (rule extends_same_nodes) auto










section \<open>The copy loop\<close>








section \<open>Sampling without replacement\<close>

lemma pool_step:
  assumes "j \<le> m" and "m < length pool"
  shows "mset (take m (pool[j := pool ! m])) + {#pool ! j#} = mset (take (Suc m) pool)"
proof (cases "j = m")
  case True
  then show ?thesis using assms by (simp add: take_Suc_conv_app_nth)
next
  case False
  with assms have jm: "j < m" by simp
  have "take m (pool[j := pool ! m]) = (take m pool)[j := pool ! m]"
    by (simp add: take_update_swap)
  moreover have "j < length (take m pool)" using jm assms by simp
  moreover have "take m pool ! j = pool ! j" using jm by simp
  moreover have "pool ! j \<in># mset (take m pool)"
    using jm assms by (metis calculation(2,3) nth_mem set_mset_mset)
  ultimately show ?thesis
    using assms by (simp add: mset_update take_Suc_conv_app_nth)
qed

lemma randbelow_less: "0 < m \<Longrightarrow> randbelow rng i m < m"
  by (simp add: randbelow_def)

lemma sample_loop_mset:
  assumes "i \<le> k" and "k \<le> n" and "length pool = n"
  shows "\<exists>rest. mset (sample_loop rng n k i pool result) + mset rest =
                  mset result + mset (take (n - i) pool) \<and>
                length rest = n - k \<and>
                length (sample_loop rng n k i pool result) = length result + (k - i)"
  using assms
proof (induction rng n k i pool result rule: sample_loop.induct)
  case (1 rng n k i pool result)
  show ?case
  proof (cases "i < k")
    case False
    with "1.prems" have "i = k" by simp
    then have "sample_loop rng n k i pool result = result"
      by (subst sample_loop.simps) simp
    with \<open>i = k\<close> "1.prems" show ?thesis
      by (intro exI [of _ "take (n - k) pool"]) simp
  next
    case True
    let ?j = "randbelow rng i (n - i)"
    let ?m = "n - i - 1"
    from True "1.prems" have pos: "0 < n - i" by simp
    then have j: "?j \<le> ?m" using randbelow_less [OF pos, of rng i] by simp
    have m: "?m < length pool" using pos "1.prems" by simp
    have unfold: "sample_loop rng n k i pool result =
        sample_loop rng n k (i + 1) (pool[?j := pool ! ?m]) (result @ [pool ! ?j])"
      using True by (subst sample_loop.simps) simp
    from "1.IH" [OF True] True "1.prems"
    obtain rest where
      ih: "mset (sample_loop rng n k (i + 1) (pool[?j := pool ! ?m]) (result @ [pool ! ?j])) +
             mset rest =
           mset (result @ [pool ! ?j]) + mset (take (n - (i + 1)) (pool[?j := pool ! ?m]))"
      and len: "length rest = n - k"
      and lo: "length (sample_loop rng n k (i + 1) (pool[?j := pool ! ?m])
                 (result @ [pool ! ?j])) = length (result @ [pool ! ?j]) + (k - (i + 1))"
      by auto
    have "n - (i + 1) = ?m" by simp
    moreover have "Suc ?m = n - i" using pos by simp
    ultimately have step: "mset (take (n - (i + 1)) (pool[?j := pool ! ?m])) + {#pool ! ?j#} =
        mset (take (n - i) pool)"
      using pool_step [OF j m] by simp
    have "mset (sample_loop rng n k i pool result) + mset rest =
          mset result + mset (take (n - i) pool)"
      using ih step unfold by (simp add: ac_simps)
    moreover have "length (sample_loop rng n k i pool result) = length result + (k - i)"
      using lo unfold True by simp
    ultimately show ?thesis using len by blast
  qed
qed

lemma random_sample_ok:
  assumes "0 \<le> k" and "k \<le> int (length population)"
  shows "\<exists>selected rest. random_sample rng population k = Inr selected \<and>
           int (length selected) = k \<and>
           mset selected + mset rest = mset population \<and>
           length rest = length population - nat k"
proof -
  from assms have "0 \<le> nat k" "nat k \<le> length population" by simp_all
  from sample_loop_mset [where rng = rng and pool = population and result = "[]",
      OF this(1) this(2) refl]
  obtain rest where
    "mset (sample_loop rng (length population) (nat k) 0 population []) + mset rest =
       mset population"
    "length rest = length population - nat k"
    "length (sample_loop rng (length population) (nat k) 0 population []) = nat k"
    by auto
  with assms show ?thesis by (auto simp: random_sample_def)
qed

lemma distinct_sub_mset:
  assumes "distinct xs" and "mset ys \<subseteq># mset xs"
  shows "distinct ys"
proof -
  have "count (mset ys) a \<le> 1" for a
  proof -
    have "count (mset ys) a \<le> count (mset xs) a"
      using assms(2) by (rule mset_subset_eq_count)
    also have "\<dots> \<le> 1" using assms(1) by (simp add: distinct_count_atmost_1)
    finally show ?thesis .
  qed
  then have "count (mset ys) a = (if a \<in> set ys then 1 else 0)" for a
    using count_mset_0_iff [of ys a] le_Suc_eq [of "count (mset ys) a" 0]
    by (auto simp: not_in_iff)
  then show ?thesis by (simp add: distinct_count_atmost_1)
qed

text \<open>
  Claim C1. For a collection that is not empty and a count from 1 up to its size, the
  sampling stage of \<^verbatim>\<open>main\<close> returns a selection with exactly that many elements, all
  drawn from the collection, and no entry of the collection is used twice: a path occurs
  in the selection at most as often as it occurs in the collection (the selection is a
  sub-multiset). A song is an entry of the collection here, so a path that the collection
  lists twice can come out twice (the last line of the witness), and a collection without
  repeated paths gives a selection without repeated paths.
\<close>

theorem sample_within_collection:
  assumes "songs \<noteq> []" and "1 \<le> requested" and "requested \<le> int (length songs)"
  shows "\<exists>selected w'. main_select requested songs rng w = (Inr selected, w') \<and>
           int (length selected) = requested \<and>
           mset selected \<subseteq># mset songs \<and>
           set selected \<subseteq> set songs \<and>
           (distinct songs \<longrightarrow> distinct selected)"
proof -
  from assms have "0 \<le> requested" by simp
  from random_sample_ok [OF this assms(3), of rng]
  obtain selected rest where sel: "random_sample rng songs requested = Inr selected"
    and len: "int (length selected) = requested"
    and ms: "mset selected + mset rest = mset songs"
    by blast
  from ms have sub: "mset selected \<subseteq># mset songs"
    by (metis mset_subset_eq_add_left)
  then have "set selected \<subseteq> set songs" using set_mset_mono by fastforce
  moreover have "distinct songs \<longrightarrow> distinct selected"
    using sub by (auto intro: distinct_sub_mset)
  moreover have "\<exists>w'. main_select requested songs rng w = (Inr selected, w')"
    using assms sel by (simp add: main_select_def min_def)
  ultimately show ?thesis using len sub by blast
qed


theorem sample_within_collection_witness:
  "plain_songs \<noteq> [] \<and> (1::int) \<le> 2 \<and> 2 \<le> int (length plain_songs) \<and> distinct plain_songs \<and>
   (\<exists>selected w'. main_select 2 plain_songs (\<lambda>i. i) m3u_world = (Inr selected, w') \<and>
      int (length selected) = 2 \<and>
      mset selected \<subseteq># mset plain_songs \<and>
      set selected \<subseteq> set plain_songs \<and>
      distinct selected) \<and>
   fst (main_select 2 plain_songs (\<lambda>i. i) m3u_world) = Inr [''/m/a.mp3'', ''/m/b.mp3''] \<and>
   fst (main_select 2 dup_songs (\<lambda>i. i) m3u_world) = Inr [''/m/a.mp3'', ''/m/a.mp3'']"
proof -
  have h1: "plain_songs \<noteq> []" by (simp add: plain_songs_def)
  have h2: "(1::int) \<le> 2" by simp
  have h3: "2 \<le> int (length plain_songs)" by (simp add: plain_songs_def)
  have h4: "distinct plain_songs" by (simp add: plain_songs_def)
  have r1: "fst (main_select 2 plain_songs (\<lambda>i. i) m3u_world) = Inr [''/m/a.mp3'', ''/m/b.mp3'']"
    by code_simp
  have r2: "fst (main_select 2 dup_songs (\<lambda>i. i) m3u_world) = Inr [''/m/a.mp3'', ''/m/a.mp3'']"
    by code_simp
  from sample_within_collection [OF h1 h2 h3, of "\<lambda>i. i" m3u_world] h1 h2 h3 h4 r1 r2
  show ?thesis by blast
qed

section \<open>Collecting songs\<close>

lemma audio_in_cong:
  assumes "nodes w1 = nodes w" and "link_limit w1 = link_limit w" and "rglob w1 = rglob w"
  shows "audio_in w1 folder = audio_in w folder"
proof -
  have "is_file w1 = is_file w" using is_file_cong [OF assms(1,2)] by (intro ext)
  with assms(3) show ?thesis by (simp add: audio_in_def scan_audio_files_def)
qed

lemma scan_fields:
  "scan_audio_files folder w = (found, w1) \<Longrightarrow>
     found = audio_in w folder \<and> nodes w1 = nodes w \<and> link_limit w1 = link_limit w \<and>
     rglob w1 = rglob w \<and> io_fails w1 = io_fails w \<and> encodable w1 = encodable w \<and>
     stdout w1 = stdout w \<and> stderr w1 = stderr w \<and> scanned w1 = scanned w @ [folder]"
  by (auto simp: scan_audio_files_def audio_in_def)

lemma collect_loop_result:
  assumes "\<forall>name\<in>set names. map_of genres name \<noteq> None"
    and "nodes w = nodes w0" and "link_limit w = link_limit w0" and "rglob w = rglob w0"
  shows "\<exists>w'. collect_loop genres names songs w =
            (Inr (songs @ concat (map (\<lambda>name. audio_in w0 (folder_of genres name))
                    (filter (\<lambda>name. path_exists w0 (folder_of genres name)) names))), w') \<and>
          stderr w' = stderr w @ map (missing_warning genres)
                        (filter (\<lambda>name. \<not> path_exists w0 (folder_of genres name)) names) \<and>
          scanned w' = scanned w @ map (folder_of genres)
                        (filter (\<lambda>name. path_exists w0 (folder_of genres name)) names) \<and>
          nodes w' = nodes w0 \<and> link_limit w' = link_limit w0 \<and> rglob w' = rglob w0 \<and>
          io_fails w' = io_fails w \<and> encodable w' = encodable w \<and>
          set (stdout w) \<subseteq> set (stdout w')"
  using assms
proof (induction names arbitrary: songs w)
  case Nil
  show ?case using Nil.prems by (intro exI [of _ w]) simp
next
  case (Cons name names)
  from Cons.prems(1) obtain folder where folder: "map_of genres name = Some folder" by auto
  then have fo: "folder_of genres name = folder" by (simp add: folder_of_def)
  have keys: "\<forall>name\<in>set names. map_of genres name \<noteq> None" using Cons.prems(1) by simp
  have ex: "path_exists w folder = path_exists w0 folder"
    using Cons.prems(2,3) by (rule path_exists_cong)
  show ?case
  proof (cases "path_exists w0 folder")
    case False
    let ?w1 = "eprint (''Warning: Folder for '' @ name @ '' does not exist: '' @ folder) w"
    have "nodes ?w1 = nodes w0" "link_limit ?w1 = link_limit w0" "rglob ?w1 = rglob w0"
      using Cons.prems by simp_all
    from Cons.IH [OF keys this, of songs] obtain w' where
      "collect_loop genres names songs ?w1 =
         (Inr (songs @ concat (map (\<lambda>name. audio_in w0 (folder_of genres name))
                 (filter (\<lambda>name. path_exists w0 (folder_of genres name)) names))), w')"
      "stderr w' = stderr ?w1 @ map (missing_warning genres)
                     (filter (\<lambda>name. \<not> path_exists w0 (folder_of genres name)) names)"
      "scanned w' = scanned ?w1 @ map (folder_of genres)
                     (filter (\<lambda>name. path_exists w0 (folder_of genres name)) names)"
      "nodes w' = nodes w0" "link_limit w' = link_limit w0" "rglob w' = rglob w0"
      "io_fails w' = io_fails ?w1" "encodable w' = encodable ?w1"
      "set (stdout ?w1) \<subseteq> set (stdout w')"
      by blast
    then show ?thesis using False folder fo ex
      by (intro exI [of _ w']) (simp add: missing_warning_def)
  next
    case True
    obtain found w1 where sc: "scan_audio_files folder w = (found, w1)" by force
    note f = scan_fields [OF sc]
    let ?w2 = "print (''  '' @ name @ '': '' @ str_nat (length found) @ '' files found'') w1"
    have found: "found = audio_in w0 folder"
      using f audio_in_cong [OF Cons.prems(2,3,4)] by simp
    have "nodes ?w2 = nodes w0" "link_limit ?w2 = link_limit w0" "rglob ?w2 = rglob w0"
      using Cons.prems f by simp_all
    from Cons.IH [OF keys this, of "songs @ found"] obtain w' where
      "collect_loop genres names (songs @ found) ?w2 =
         (Inr ((songs @ found) @ concat (map (\<lambda>name. audio_in w0 (folder_of genres name))
                 (filter (\<lambda>name. path_exists w0 (folder_of genres name)) names))), w')"
      "stderr w' = stderr ?w2 @ map (missing_warning genres)
                     (filter (\<lambda>name. \<not> path_exists w0 (folder_of genres name)) names)"
      "scanned w' = scanned ?w2 @ map (folder_of genres)
                     (filter (\<lambda>name. path_exists w0 (folder_of genres name)) names)"
      "nodes w' = nodes w0" "link_limit w' = link_limit w0" "rglob w' = rglob w0"
      "io_fails w' = io_fails ?w2" "encodable w' = encodable ?w2"
      "set (stdout ?w2) \<subseteq> set (stdout w')"
      by blast
    then show ?thesis using True folder fo ex sc f found
      by (intro exI [of _ w']) auto
  qed
qed

lemma load_genres_fields:
  assumes "load_genres w = (r, w1)"
  shows "nodes w1 = nodes w \<and> link_limit w1 = link_limit w \<and> rglob w1 = rglob w \<and>
         io_fails w1 = io_fails w \<and> encodable w1 = encodable w \<and>
         str_upper w1 = str_upper w \<and>
         scanned w1 = scanned w \<and> stdout w1 = stdout w \<and>
         (\<forall>g. r = Inr g \<longrightarrow> w1 = w)"
  using assms by (auto simp: load_genres_def Let_def split: option.splits if_splits)

text \<open>
  Claim C5. When names are requested and one of them, put in upper case by
  \<^verbatim>\<open>str.upper\<close>, is not a key of the registry, \<^const>\<open>collect_songs\<close> raises
  \<^verbatim>\<open>SystemExit(1)\<close> after two lines on the diagnostic stream: \<^verbatim>\<open>Error: Unknown genre(s):\<close>
  with the unknown names (upper case, sorted, separated by commas) and \<^verbatim>\<open>Available:\<close>
  with all keys of the registry; nothing is printed or scanned. A run of \<^verbatim>\<open>main\<close> that
  reaches the collector with these names ends with exit status 1.
\<close>

theorem unknown_genre_is_fatal:
  assumes "names \<noteq> []" and "\<exists>g\<in>set names. str_upper w g \<notin> set (map fst genres)"
  shows "(\<exists>w'. collect_songs genres (Some names) w = (Inl (SystemExit 1), w') \<and>
            stderr w' = stderr w @
              [''Error: Unknown genre(s): '' @
                 join '', ''
                   (sorted_list_of_set (str_upper w ` set names - set (map fst genres))),
               ''Available: '' @ join '', '' (sorted_list_of_set (set (map fst genres)))] \<and>
            stdout w' = stdout w \<and> scanned w' = scanned w) \<and>
         (\<forall>a rng n.
            load_genres w = (Inr genres, w) \<and> \<not> arg_list a \<and> arg_count a = Some n \<and>
            1 \<le> n \<and> arg_genres a = Some names \<longrightarrow>
            (\<exists>w'. main a rng w = Some (Inl (SystemExit 1), w') \<and>
               exit_status (Inl (SystemExit 1) :: error + unit) = 1 \<and>
               scanned w' = scanned w))"
proof -
  have coll: "collect_songs genres (Some names) w0 =
      (Inl (SystemExit 1),
       eprint (''Available: '' @ join '', '' (sorted_list_of_set (set (map fst genres))))
         (eprint (''Error: Unknown genre(s): '' @
            join '', '' (sorted_list_of_set (str_upper w ` set names - set (map fst genres))))
            w0))"
    if "str_upper w0 = str_upper w" for w0
  proof -
    from assms(2) that have "str_upper w0 ` set names - set (map fst genres) \<noteq> {}" by auto
    with assms(1) that show ?thesis by (simp add: collect_songs_def Let_def)
  qed
  have first: "\<exists>w'. collect_songs genres (Some names) w = (Inl (SystemExit 1), w') \<and>
            stderr w' = stderr w @
              [''Error: Unknown genre(s): '' @
                 join '', ''
                   (sorted_list_of_set (str_upper w ` set names - set (map fst genres))),
               ''Available: '' @ join '', '' (sorted_list_of_set (set (map fst genres)))] \<and>
            stdout w' = stdout w \<and> scanned w' = scanned w"
    by (simp add: coll)
  have second: "\<exists>w'. main a rng w = Some (Inl (SystemExit 1), w') \<and>
               exit_status (Inl (SystemExit 1) :: error + unit) = 1 \<and>
               scanned w' = scanned w"
    if h: "load_genres w = (Inr genres, w) \<and> \<not> arg_list a \<and> arg_count a = Some n \<and>
            1 \<le> n \<and> arg_genres a = Some names"
    for a rng n
    using h by (simp add: main_def coll)
  from first second show ?thesis by blast
qed

theorem unknown_genre_is_fatal_witness:
  "[''pop''] \<noteq> [] \<and> str_upper music_world ''pop'' \<notin> set (map fst rock_jazz) \<and>
   (\<exists>w'. collect_songs rock_jazz (Some [''pop'']) music_world = (Inl (SystemExit 1), w') \<and>
      stderr w' = stderr music_world @
        [''Error: Unknown genre(s): POP'', ''Available: JAZZ, ROCK'']) \<and>
   load_genres music_world = (Inr rock_jazz, music_world) \<and>
   (\<exists>w'. main pop_args (\<lambda>i. i) music_world = Some (Inl (SystemExit 1), w') \<and>
      exit_status (Inl (SystemExit 1) :: error + unit) = 1 \<and>
      scanned w' = scanned music_world)"
proof -
  have h1: "[''pop''] \<noteq> []" by simp
  have h2: "str_upper music_world ''pop'' \<notin> set (map fst rock_jazz)" by code_simp
  then have h2': "\<exists>g\<in>set [''pop'']. str_upper music_world g \<notin> set (map fst rock_jazz)" by simp
  have m1: "''Error: Unknown genre(s): '' @
      join '', '' (sorted_list_of_set
        (str_upper music_world ` set [''pop''] - set (map fst rock_jazz))) =
      ''Error: Unknown genre(s): POP''"
    by code_simp
  have m2: "''Available: '' @ join '', '' (sorted_list_of_set (set (map fst rock_jazz))) =
      ''Available: JAZZ, ROCK''"
    by code_simp
  have "fst (load_genres music_world) = Inr rock_jazz" by code_simp
  moreover obtain r w1 where rw: "load_genres music_world = (r, w1)" by force
  ultimately have ld: "load_genres music_world = (Inr rock_jazz, music_world)"
    using load_genres_fields [OF rw] by simp
  have ar: "\<not> arg_list pop_args \<and> arg_count pop_args = Some 3 \<and> (1::int) \<le> 3 \<and>
            arg_genres pop_args = Some [''pop'']"
    by (simp add: pop_args_def)
  note t = unknown_genre_is_fatal [OF h1 h2']
  from t have a: "\<exists>w'. collect_songs rock_jazz (Some [''pop'']) music_world =
        (Inl (SystemExit 1), w') \<and>
      stderr w' = stderr music_world @
        [''Error: Unknown genre(s): POP'', ''Available: JAZZ, ROCK'']"
    unfolding m1 m2 by blast
  from t ld ar have b: "\<exists>w'. main pop_args (\<lambda>i. i) music_world = Some (Inl (SystemExit 1), w') \<and>
      exit_status (Inl (SystemExit 1) :: error + unit) = 1 \<and>
      scanned w' = scanned music_world"
    by blast
  from h1 h2 a ld b show ?thesis by blast
qed


text \<open>
  Claim C6. When no requested name is unknown, \<^const>\<open>collect_songs\<close> goes through the
  selected genre names (the requested names in upper case, or all keys of the registry) in
  sorted order without repetition. The songs it returns are the
  concatenation, in that order, of what the scan of each existing folder finds: nothing is
  removed, so a file reached through two genres is listed twice. A genre whose folder does
  not exist adds no song and no scan, only a warning on the diagnostic stream, and the
  collection goes on.
\<close>

theorem collect_songs_in_sorted_order:
  assumes "selected = (if requested \<noteq> None \<and> requested \<noteq> Some []
                       then str_upper w ` set (the requested) else set (map fst genres))"
    and "selected \<subseteq> set (map fst genres)"
  shows "\<exists>names w'.
           names = sorted_list_of_set selected \<and>
           sorted names \<and> distinct names \<and> set names = selected \<and>
           collect_songs genres requested w =
             (Inr (concat (map (\<lambda>name. audio_in w (folder_of genres name))
                     (filter (\<lambda>name. path_exists w (folder_of genres name)) names))), w') \<and>
           stderr w' = stderr w @ map (missing_warning genres)
                         (filter (\<lambda>name. \<not> path_exists w (folder_of genres name)) names) \<and>
           scanned w' = scanned w @ map (folder_of genres)
                         (filter (\<lambda>name. path_exists w (folder_of genres name)) names)"
proof -
  let ?names = "sorted_list_of_set selected"
  have fin: "finite selected" using assms(1) by (simp split: if_splits)
  then have props: "sorted ?names" "distinct ?names" "set ?names = selected" by simp_all
  have keys: "\<forall>name\<in>set ?names. map_of genres name \<noteq> None"
    using props(3) assms(2) by (auto simp: map_of_eq_None_iff)
  have run: "collect_songs genres requested w = collect_loop genres ?names [] w"
  proof (cases "requested \<noteq> None \<and> requested \<noteq> Some []")
    case True
    with assms have "str_upper w ` set (the requested) - set (map fst genres) = {}" by auto
    with True assms(1) show ?thesis by (simp add: collect_songs_def Let_def)
  next
    case False
    with assms(1) show ?thesis by (auto simp: collect_songs_def)
  qed
  from collect_loop_result [OF keys refl refl refl, of "[]"] obtain w' where
    "collect_loop genres ?names [] w =
       (Inr ([] @ concat (map (\<lambda>name. audio_in w (folder_of genres name))
               (filter (\<lambda>name. path_exists w (folder_of genres name)) ?names))), w')"
    "stderr w' = stderr w @ map (missing_warning genres)
                   (filter (\<lambda>name. \<not> path_exists w (folder_of genres name)) ?names)"
    "scanned w' = scanned w @ map (folder_of genres)
                   (filter (\<lambda>name. path_exists w (folder_of genres name)) ?names)"
    by blast
  with run props show ?thesis by simp
qed

theorem collect_songs_in_sorted_order_witness:
  "set (map fst mix_registry) \<subseteq> set (map fst mix_registry) \<and>
   sorted_list_of_set (set (map fst mix_registry)) = [''JAZZ'', ''MIX'', ''ROCK''] \<and>
   \<not> path_exists music_world (folder_of mix_registry ''JAZZ'') \<and>
   (\<exists>w'. collect_songs mix_registry None music_world =
        (Inr [''/music/rock/a.mp3'', ''/music/rock/b.MP3'', ''/music/rock/c.flac'',
              ''/music/rock/a.mp3'', ''/music/rock/b.MP3'', ''/music/rock/c.flac''], w') \<and>
      stderr w' = [''Warning: Folder for JAZZ does not exist: /music/jazz''] \<and>
      scanned w' = [''/music/rock'', ''/music/rock''])"
proof -
  let ?sel = "set (map fst mix_registry)"
  have h1: "?sel = (if (None :: string list option) \<noteq> None \<and> None \<noteq> Some []
                    then str_upper music_world ` set (the None) else ?sel)"
    by simp
  have h2: "?sel \<subseteq> ?sel" by simp
  have s: "sorted_list_of_set ?sel = [''JAZZ'', ''MIX'', ''ROCK'']" by code_simp
  have j: "\<not> path_exists music_world (folder_of mix_registry ''JAZZ'')" by code_simp
  have e1: "concat (map (\<lambda>name. audio_in music_world (folder_of mix_registry name))
              (filter (\<lambda>name. path_exists music_world (folder_of mix_registry name))
                 [''JAZZ'', ''MIX'', ''ROCK''])) =
            [''/music/rock/a.mp3'', ''/music/rock/b.MP3'', ''/music/rock/c.flac'',
             ''/music/rock/a.mp3'', ''/music/rock/b.MP3'', ''/music/rock/c.flac'']"
    by code_simp
  have e2: "stderr music_world @ map (missing_warning mix_registry)
              (filter (\<lambda>name. \<not> path_exists music_world (folder_of mix_registry name))
                 [''JAZZ'', ''MIX'', ''ROCK'']) =
            [''Warning: Folder for JAZZ does not exist: /music/jazz'']"
    by code_simp
  have e3: "scanned music_world @ map (folder_of mix_registry)
              (filter (\<lambda>name. path_exists music_world (folder_of mix_registry name))
                 [''JAZZ'', ''MIX'', ''ROCK'']) =
            [''/music/rock'', ''/music/rock'']"
    by code_simp
  from collect_songs_in_sorted_order [OF h1 h2]
  obtain names w' where n: "names = sorted_list_of_set ?sel"
    and c: "collect_songs mix_registry None music_world =
             (Inr (concat (map (\<lambda>name. audio_in music_world (folder_of mix_registry name))
                     (filter (\<lambda>name. path_exists music_world (folder_of mix_registry name))
                        names))), w')"
    and w: "stderr w' = stderr music_world @ map (missing_warning mix_registry)
              (filter (\<lambda>name. \<not> path_exists music_world (folder_of mix_registry name)) names)"
    and sc: "scanned w' = scanned music_world @ map (folder_of mix_registry)
              (filter (\<lambda>name. path_exists music_world (folder_of mix_registry name)) names)"
    by blast
  from n s have names: "names = [''JAZZ'', ''MIX'', ''ROCK'']" by simp
  note c [unfolded names e1] w [unfolded names e2] sc [unfolded names e3]
  then have "\<exists>w'. collect_songs mix_registry None music_world =
        (Inr [''/music/rock/a.mp3'', ''/music/rock/b.MP3'', ''/music/rock/c.flac'',
              ''/music/rock/a.mp3'', ''/music/rock/b.MP3'', ''/music/rock/c.flac''], w') \<and>
      stderr w' = [''Warning: Folder for JAZZ does not exist: /music/jazz''] \<and>
      scanned w' = [''/music/rock'', ''/music/rock'']"
    by blast
  with h2 s j show ?thesis by blast
qed

section \<open>Loading the registry\<close>

lemma load_loop_usable:
  "load_loop w vals g =
   foldl (\<lambda>g e. AList.update (fst (entry_of w e)) (snd (entry_of w e)) g) g (usable vals)"
  by (induction vals arbitrary: g rule: usable.induct) (simp_all add: entry_of_def)

lemma fold_update_map_of:
  "map_of (foldl (\<lambda>g e. AList.update (fst (f e)) (snd (f e)) g) g es) =
   map_of (rev (map f es) @ g)"
proof (induction es arbitrary: g)
  case Nil
  show ?case by simp
next
  case (Cons e es)
  have "map_of (AList.update (fst (f e)) (snd (f e)) g) = map_of (f e # g)"
    by (simp add: update_conv')
  then show ?case by (simp add: Cons.IH map_of_append)
qed

lemma fold_update_distinct:
  "distinct (map fst g) \<Longrightarrow>
   distinct (map fst (foldl (\<lambda>g e. AList.update (fst (f e)) (snd (f e)) g) g es))"
  by (induction es arbitrary: g) (simp_all add: distinct_update)

lemma fold_update_keys:
  "fst ` set (foldl (\<lambda>g e. AList.update (fst (f e)) (snd (f e)) g) g es) =
   fst ` set g \<union> (fst \<circ> f) ` set es"
  by (induction es arbitrary: g) (auto simp: dom_update)

lemma load_loop_registry:
  "distinct (map fst (load_loop w vals [])) \<and>
   fst ` set (load_loop w vals []) = (str_upper w \<circ> fst) ` set (usable vals) \<and>
   map_of (load_loop w vals []) = map_of (rev (map (entry_of w) (usable vals)))"
proof -
  have "(fst \<circ> entry_of w) = (str_upper w \<circ> fst)" by (rule ext) (simp add: entry_of_def)
  then show ?thesis
    using fold_update_distinct [of "[]" "entry_of w" "usable vals"]
      fold_update_keys [of "entry_of w" "[]" "usable vals"]
      fold_update_map_of [of "entry_of w" "[]" "usable vals"]
    by (simp add: load_loop_usable)
qed

lemma load_loop_empty: "load_loop w vals [] = [] \<longleftrightarrow> usable vals = []"
  using load_loop_registry [of w vals] by (metis image_is_empty set_empty)

lemma load_genres_absent:
  assumes "env_file w = None"
  shows "\<exists>w'. load_genres w = (Inl (SystemExit 1), w') \<and>
           (\<forall>a rng. \<exists>r. main a rng w = Some (r, w') \<and> exit_status r = 1)"
  using assms by (simp add: load_genres_def main_def)

lemma load_genres_blank:
  assumes "env_file w = Some vals" and "usable vals = []"
  shows "\<exists>w'. load_genres w = (Inl (SystemExit 1), w') \<and>
           (\<forall>a rng. \<exists>r. main a rng w = Some (r, w') \<and> exit_status r = 1)"
  using assms load_loop_empty [of w vals] by (simp add: load_genres_def main_def)

lemma load_genres_usable:
  assumes "env_file w = Some vals" and "usable vals \<noteq> []"
  shows "load_genres w = (Inr (load_loop w vals []), w)"
  using assms load_loop_empty [of w vals] by (simp add: load_genres_def Let_def)

lemma registry_entry_origin:
  assumes "(name, folder) \<in> set (load_loop w vals [])"
  shows "\<exists>k v. (k, v) \<in> set (usable vals) \<and> name = str_upper w k \<and> folder = to_folder w v"
proof -
  from load_loop_registry [of w vals]
  have d: "distinct (map fst (load_loop w vals []))"
    and m: "map_of (load_loop w vals []) = map_of (rev (map (entry_of w) (usable vals)))"
    by simp_all
  from assms d have "map_of (load_loop w vals []) name = Some folder" by simp
  with m have "map_of (rev (map (entry_of w) (usable vals))) name = Some folder" by simp
  then have "(name, folder) \<in> set (rev (map (entry_of w) (usable vals)))"
    by (rule map_of_SomeD)
  then obtain e where "e \<in> set (usable vals)" and "entry_of w e = (name, folder)" by auto
  then have "(fst e, snd e) \<in> set (usable vals) \<and> name = str_upper w (fst e) \<and>
      folder = to_folder w (snd e)"
    by (simp add: entry_of_def)
  then show ?thesis by blast
qed

lemma to_folder_cases:
  "to_folder w v =
     (if is_absolute (Path v) then Path v else resolve w (joinpath (script_dir w) (Path v)))"
  by (simp add: to_folder_def Let_def)

text \<open>
  Claim C7, as the program has it. \<^const>\<open>load_genres\<close> raises \<^verbatim>\<open>SystemExit(1)\<close>, and the
  run ends with exit status 1, when the configuration file is absent and when none of its
  entries has a value that is not empty. Otherwise it returns a registry and leaves the
  world as it is. The keys of the registry are the names of the usable entries, put in
  upper case by \<^verbatim>\<open>str.upper\<close> (an entry with an empty or missing value is skipped), and
  every entry of the registry comes from a usable entry of the configuration. Its folder
  is \<^verbatim>\<open>Path(value)\<close> when that is absolute: the configured path without repeated or
  trailing separators and single dots, not resolved. Otherwise it is what \<^verbatim>\<open>resolve\<close>
  makes of that path joined to \<^verbatim>\<open>SCRIPT_DIR\<close>, the directory of the program. When
  \<^verbatim>\<open>resolve\<close> returns absolute paths, as the library's does, every folder of the registry
  is absolute.
\<close>

theorem load_genres_registry:
  "(env_file w = None \<longrightarrow>
      (\<exists>w'. load_genres w = (Inl (SystemExit 1), w') \<and>
         (\<forall>a rng. \<exists>r. main a rng w = Some (r, w') \<and> exit_status r = 1))) \<and>
   (\<forall>vals. env_file w = Some vals \<and> usable vals = [] \<longrightarrow>
      (\<exists>w'. load_genres w = (Inl (SystemExit 1), w') \<and>
         (\<forall>a rng. \<exists>r. main a rng w = Some (r, w') \<and> exit_status r = 1))) \<and>
   (\<forall>vals. env_file w = Some vals \<and> usable vals \<noteq> [] \<longrightarrow>
      (\<exists>g. load_genres w = (Inr g, w) \<and>
         fst ` set g = (str_upper w \<circ> fst) ` set (usable vals) \<and>
         (\<forall>name folder. (name, folder) \<in> set g \<longrightarrow>
            (\<exists>k v. (k, v) \<in> set (usable vals) \<and> name = str_upper w k \<and>
               folder = (if is_absolute (Path v) then Path v
                         else resolve w (joinpath (script_dir w) (Path v))))) \<and>
         ((\<forall>p. is_absolute (resolve w p)) \<longrightarrow>
            (\<forall>name folder. (name, folder) \<in> set g \<longrightarrow> is_absolute folder))))"
proof (intro conjI allI impI)
  assume "env_file w = None"
  then show "\<exists>w'. load_genres w = (Inl (SystemExit 1), w') \<and>
         (\<forall>a rng. \<exists>r. main a rng w = Some (r, w') \<and> exit_status r = 1)"
    by (rule load_genres_absent)
next
  fix vals assume "env_file w = Some vals \<and> usable vals = []"
  then show "\<exists>w'. load_genres w = (Inl (SystemExit 1), w') \<and>
         (\<forall>a rng. \<exists>r. main a rng w = Some (r, w') \<and> exit_status r = 1)"
    using load_genres_blank by blast
next
  fix vals assume h: "env_file w = Some vals \<and> usable vals \<noteq> []"
  let ?g = "load_loop w vals []"
  from h have ld: "load_genres w = (Inr ?g, w)" using load_genres_usable by blast
  have keys: "fst ` set ?g = (str_upper w \<circ> fst) ` set (usable vals)"
    using load_loop_registry [of w vals] by simp
  have origin: "\<forall>name folder. (name, folder) \<in> set ?g \<longrightarrow>
            (\<exists>k v. (k, v) \<in> set (usable vals) \<and> name = str_upper w k \<and>
               folder = (if is_absolute (Path v) then Path v
                         else resolve w (joinpath (script_dir w) (Path v))))"
    using registry_entry_origin [of _ _ w vals] by (simp only: to_folder_cases) blast
  have "(\<forall>p. is_absolute (resolve w p)) \<longrightarrow>
            (\<forall>name folder. (name, folder) \<in> set ?g \<longrightarrow> is_absolute folder)"
  proof (intro impI allI)
    fix name folder
    assume r: "\<forall>p. is_absolute (resolve w p)" and "(name, folder) \<in> set ?g"
    with origin obtain k v where
      "folder = (if is_absolute (Path v) then Path v
                 else resolve w (joinpath (script_dir w) (Path v)))"
      by blast
    with r show "is_absolute folder" by (cases "is_absolute (Path v)") simp_all
  qed
  with ld keys origin
  show "\<exists>g. load_genres w = (Inr g, w) \<and>
         fst ` set g = (str_upper w \<circ> fst) ` set (usable vals) \<and>
         (\<forall>name folder. (name, folder) \<in> set g \<longrightarrow>
            (\<exists>k v. (k, v) \<in> set (usable vals) \<and> name = str_upper w k \<and>
               folder = (if is_absolute (Path v) then Path v
                         else resolve w (joinpath (script_dir w) (Path v))))) \<and>
         ((\<forall>p. is_absolute (resolve w p)) \<longrightarrow>
            (\<forall>name folder. (name, folder) \<in> set g \<longrightarrow> is_absolute folder))"
    by blast
qed

lemma last_usable_wins:
  assumes "usable vals = xs @ (k, v) # ys"
    and "str_upper w k \<notin> (str_upper w \<circ> fst) ` set ys"
  shows "map_of (load_loop w vals []) (str_upper w k) = Some (to_folder w v)"
proof -
  have "map_of (rev (map (entry_of w) ys)) (str_upper w k) = None"
    using assms(2) by (force simp: map_of_eq_None_iff entry_of_def)
  then have "map_of (rev (map (entry_of w) (xs @ (k, v) # ys))) (str_upper w k) =
        Some (to_folder w v)"
    by (simp add: map_of_append map_add_def entry_of_def)
  with assms(1) load_loop_registry [of w vals] show ?thesis by simp
qed

text \<open>
  Claim C10. The registry that \<^const>\<open>load_genres\<close> returns has pairwise different keys,
  and its keys are the configured names put in upper case by \<^verbatim>\<open>str.upper\<close>. Entries of
  the configuration whose names agree in upper case become one entry of the registry,
  with the folder of the last of them. Nothing is written to either stream on the way: the
  world that is returned is the world that was given.
\<close>

theorem registry_keys_unique_upper:
  assumes "env_file w = Some vals" and "usable vals \<noteq> []"
  shows "\<exists>g. load_genres w = (Inr g, w) \<and>
           distinct (map fst g) \<and>
           set (map fst g) = str_upper w ` fst ` set (usable vals) \<and>
           (\<forall>k\<in>fst ` set (usable vals). \<exists>!folder. (str_upper w k, folder) \<in> set g) \<and>
           (\<forall>xs k v ys.
              usable vals = xs @ (k, v) # ys \<and>
              str_upper w k \<notin> (str_upper w \<circ> fst) ` set ys \<longrightarrow>
              map_of g (str_upper w k) = Some (to_folder w v))"
proof -
  let ?g = "load_loop w vals []"
  have ld: "load_genres w = (Inr ?g, w)" using assms by (rule load_genres_usable)
  have d: "distinct (map fst ?g)" using load_loop_registry [of w vals] by simp
  have "fst ` set ?g = (str_upper w \<circ> fst) ` set (usable vals)"
    using load_loop_registry [of w vals] by simp
  then have keys: "set (map fst ?g) = str_upper w ` fst ` set (usable vals)"
    by (simp add: image_comp)
  have one: "\<forall>k\<in>fst ` set (usable vals). \<exists>!folder. (str_upper w k, folder) \<in> set ?g"
  proof
    fix k assume "k \<in> fst ` set (usable vals)"
    with keys have "str_upper w k \<in> set (map fst ?g)" by blast
    then obtain folder where f: "(str_upper w k, folder) \<in> set ?g" by auto
    show "\<exists>!folder. (str_upper w k, folder) \<in> set ?g"
    proof (rule ex1I [of _ folder])
      show "(str_upper w k, folder) \<in> set ?g" by (rule f)
    next
      fix other assume "(str_upper w k, other) \<in> set ?g"
      with f d show "other = folder" by (meson eq_key_imp_eq_value)
    qed
  qed
  have "\<forall>xs k v ys.
          usable vals = xs @ (k, v) # ys \<and>
          str_upper w k \<notin> (str_upper w \<circ> fst) ` set ys \<longrightarrow>
          map_of ?g (str_upper w k) = Some (to_folder w v)"
    using last_usable_wins by blast
  with ld d keys one show ?thesis by blast
qed

lemma load_env_world:
  "load_genres env_world = (Inr [(''ROCK'', ''/r2''), (''JAZZ'', ''/opt/tool/jazz'')], env_world)"
proof -
  have "fst (load_genres env_world) = Inr [(''ROCK'', ''/r2''), (''JAZZ'', ''/opt/tool/jazz'')]"
    by code_simp
  moreover obtain r w1 where rw: "load_genres env_world = (r, w1)" by force
  ultimately show ?thesis using load_genres_fields [OF rw] by simp
qed

theorem load_genres_registry_witness:
  "env_file m3u_world = None \<and>
   (\<exists>w'. load_genres m3u_world = (Inl (SystemExit 1), w') \<and>
      (\<exists>r. main pop_args (\<lambda>i. i) m3u_world = Some (r, w') \<and> exit_status r = 1)) \<and>
   env_file blank_world = Some [(''pop'', Some []), (''folk'', None)] \<and>
   usable [(''pop'', Some []), (''folk'', None)] = [] \<and>
   (\<exists>w'. load_genres blank_world = (Inl (SystemExit 1), w') \<and>
      (\<exists>r. main pop_args (\<lambda>i. i) blank_world = Some (r, w') \<and> exit_status r = 1)) \<and>
   usable (the (env_file env_world)) =
     [(''rock'', ''/music/rock''), (''jazz'', ''jazz''), (''Rock'', ''/r2/'')] \<and>
   (\<forall>p. is_absolute (resolve env_world p)) \<and>
   (\<exists>g. load_genres env_world = (Inr g, env_world) \<and>
      g = [(''ROCK'', ''/r2''), (''JAZZ'', ''/opt/tool/jazz'')] \<and>
      fst ` set g = (str_upper env_world \<circ> fst) ` set (usable (the (env_file env_world))) \<and>
      (\<forall>name folder. (name, folder) \<in> set g \<longrightarrow> is_absolute folder))"
proof -
  have e1: "env_file m3u_world = None" by (simp add: m3u_world_def)
  have e2: "env_file blank_world = Some [(''pop'', Some []), (''folk'', None)]"
    by (simp add: blank_world_def)
  have u2: "usable [(''pop'', Some []), (''folk'', None)] = []" by simp
  have e3: "env_file env_world = Some (the (env_file env_world))"
    by (simp add: env_world_def)
  have u3: "usable (the (env_file env_world)) =
     [(''rock'', ''/music/rock''), (''jazz'', ''jazz''), (''Rock'', ''/r2/'')]"
    by (simp add: env_world_def)
  then have u3': "usable (the (env_file env_world)) \<noteq> []" by simp
  have r3: "\<forall>p. is_absolute (resolve env_world p)"
    by (simp add: env_world_def env_resolve_def is_absolute_def path_root_def)
  note g3 = load_env_world
  note t1 = load_genres_registry [of m3u_world, THEN conjunct1, rule_format, OF e1]
  note t2 = load_genres_registry [of blank_world, THEN conjunct2, THEN conjunct1,
      rule_format, OF conjI [OF e2 u2]]
  note t3 = load_genres_registry [of env_world, THEN conjunct2, THEN conjunct2,
      rule_format, OF conjI [OF e3 u3']]
  from t1 have a: "\<exists>w'. load_genres m3u_world = (Inl (SystemExit 1), w') \<and>
      (\<exists>r. main pop_args (\<lambda>i. i) m3u_world = Some (r, w') \<and> exit_status r = 1)"
    by blast
  from t2 have b: "\<exists>w'. load_genres blank_world = (Inl (SystemExit 1), w') \<and>
      (\<exists>r. main pop_args (\<lambda>i. i) blank_world = Some (r, w') \<and> exit_status r = 1)"
    by blast
  from t3 r3 g3 have c: "\<exists>g. load_genres env_world = (Inr g, env_world) \<and>
      g = [(''ROCK'', ''/r2''), (''JAZZ'', ''/opt/tool/jazz'')] \<and>
      fst ` set g = (str_upper env_world \<circ> fst) ` set (usable (the (env_file env_world))) \<and>
      (\<forall>name folder. (name, folder) \<in> set g \<longrightarrow> is_absolute folder)"
    by (metis fst_conv sum.inject(2))
  from e1 a e2 u2 b u3 r3 c show ?thesis by blast
qed

text \<open>
  Claim C7 as it is written fails for an absolute value: it is never given to
  \<^verbatim>\<open>resolve\<close>. With the value \<^verbatim>\<open>/link/rock\<close>, where \<^verbatim>\<open>/link\<close> is a symbolic link to
  \<^verbatim>\<open>/music\<close>, the folder of the registry is \<^verbatim>\<open>/link/rock\<close>, which is absolute and not
  the resolved path \<^verbatim>\<open>/music/rock\<close>.
\<close>

theorem absolute_folder_is_not_resolved:
  "usable (the (env_file linked_world)) = [(''rock'', ''/link/rock'')] \<and>
   fst (load_genres linked_world) = Inr [(''ROCK'', ''/link/rock'')] \<and>
   is_absolute ''/link/rock'' \<and>
   resolve linked_world ''/link/rock'' = ''/music/rock'' \<and>
   resolve linked_world ''/music/rock'' = ''/music/rock'' \<and>
   resolve linked_world ''/link/rock'' \<noteq> ''/link/rock''"
proof -
  have "usable (the (env_file linked_world)) = [(''rock'', ''/link/rock'')]" by code_simp
  moreover have "fst (load_genres linked_world) = Inr [(''ROCK'', ''/link/rock'')]" by code_simp
  moreover have "is_absolute ''/link/rock''" by code_simp
  moreover have "resolve linked_world ''/link/rock'' = ''/music/rock''" by code_simp
  moreover have "resolve linked_world ''/music/rock'' = ''/music/rock''" by code_simp
  ultimately show ?thesis by simp
qed

theorem registry_keys_unique_upper_witness:
  "env_file env_world = Some (the (env_file env_world)) \<and>
   usable (the (env_file env_world)) =
     [(''rock'', ''/music/rock''), (''jazz'', ''jazz'')] @ (''Rock'', ''/r2/'') # [] \<and>
   str_upper env_world ''Rock'' = ''ROCK'' \<and> str_upper env_world ''rock'' = ''ROCK'' \<and>
   (\<exists>g. load_genres env_world = (Inr g, env_world) \<and>
      g = [(''ROCK'', ''/r2''), (''JAZZ'', ''/opt/tool/jazz'')] \<and>
      distinct (map fst g) \<and>
      set (map fst g) = str_upper env_world ` fst ` set (usable (the (env_file env_world))) \<and>
      (\<exists>!folder. (str_upper env_world ''rock'', folder) \<in> set g) \<and>
      map_of g (str_upper env_world ''Rock'') = Some (to_folder env_world ''/r2/''))"
proof -
  have e3: "env_file env_world = Some (the (env_file env_world))"
    by (simp add: env_world_def)
  have u3: "usable (the (env_file env_world)) =
     [(''rock'', ''/music/rock''), (''jazz'', ''jazz'')] @ (''Rock'', ''/r2/'') # []"
    by (simp add: env_world_def)
  then have u3': "usable (the (env_file env_world)) \<noteq> []" by simp
  have last: "str_upper env_world ''Rock'' \<notin> (str_upper env_world \<circ> fst) ` set []" by simp
  have k1: "str_upper env_world ''Rock'' = ''ROCK''" by code_simp
  have k2: "str_upper env_world ''rock'' = ''ROCK''" by code_simp
  have mem: "''rock'' \<in> fst ` set (usable (the (env_file env_world)))"
    unfolding u3 by simp
  note g3 = load_env_world
  from registry_keys_unique_upper [OF e3 u3'] obtain g where
    g: "load_genres env_world = (Inr g, env_world)" "distinct (map fst g)"
      "set (map fst g) = str_upper env_world ` fst ` set (usable (the (env_file env_world)))"
      "\<forall>k\<in>fst ` set (usable (the (env_file env_world))).
         \<exists>!folder. (str_upper env_world k, folder) \<in> set g"
      "\<forall>xs k v ys.
         usable (the (env_file env_world)) = xs @ (k, v) # ys \<and>
         str_upper env_world k \<notin> (str_upper env_world \<circ> fst) ` set ys \<longrightarrow>
         map_of g (str_upper env_world k) = Some (to_folder env_world v)"
    by blast
  from g(1) g3 have geq: "g = [(''ROCK'', ''/r2''), (''JAZZ'', ''/opt/tool/jazz'')]" by simp
  from g(4) mem have one: "\<exists>!folder. (str_upper env_world ''rock'', folder) \<in> set g" by blast
  from g(5) u3 last
  have m: "map_of g (str_upper env_world ''Rock'') = Some (to_folder env_world ''/r2/'')"
    by blast
  from e3 u3 k1 k2 g(1) geq g(2) g(3) one m show ?thesis by blast
qed

section \<open>Validation of the count\<close>

lemma load_genres_error:
  assumes "load_genres w = (Inl e, w1)"
  shows "e = SystemExit 1"
  using assms by (auto simp: load_genres_def Let_def split: option.splits if_splits)

text \<open>
  Claim C8, as the program has it. When \<^verbatim>\<open>--list\<close> is not given, a count below 1 and a
  missing count are fatal: the run ends with an exit status other than 0 (status 2 from
  \<^verbatim>\<open>parser.error\<close>, or status 1 when the registry could not be loaded before), and it ends
  before the collection begins: no folder is scanned and nothing is printed.
\<close>

theorem invalid_count_is_fatal:
  assumes "\<not> arg_list a"
    and "arg_count a = None \<or> (\<exists>n. arg_count a = Some n \<and> n < 1)"
  shows "\<exists>r w'. main a rng w = Some (r, w') \<and> exit_status r \<noteq> 0 \<and>
           scanned w' = scanned w \<and> stdout w' = stdout w"
proof -
  obtain r0 w1 where ld: "load_genres w = (r0, w1)" by force
  note f = load_genres_fields [OF ld]
  show ?thesis
  proof (cases r0)
    case (Inl e)
    with ld have "e = SystemExit 1" by (simp add: load_genres_error)
    with Inl ld f show ?thesis by (simp add: main_def)
  next
    case (Inr genres)
    from assms(2) show ?thesis
    proof
      assume "arg_count a = None"
      with Inr ld f assms(1) show ?thesis by (simp add: main_def parser_error_def)
    next
      assume "\<exists>n. arg_count a = Some n \<and> n < 1"
      with Inr ld f assms(1) show ?thesis by (auto simp: main_def parser_error_def)
    qed
  qed
qed


theorem invalid_count_is_fatal_witness:
  "\<not> arg_list zero_args \<and> arg_count zero_args = Some 0 \<and> (0::int) < 1 \<and>
   (\<exists>r w'. main zero_args identity_rng music_world = Some (r, w') \<and> exit_status r \<noteq> 0 \<and>
      scanned w' = scanned music_world \<and> stdout w' = stdout music_world) \<and>
   \<not> arg_list no_count_args \<and> arg_count no_count_args = None \<and>
   (\<exists>r w'. main no_count_args identity_rng music_world = Some (r, w') \<and> exit_status r \<noteq> 0 \<and>
      scanned w' = scanned music_world \<and> stdout w' = stdout music_world) \<and>
   map_option (exit_status \<circ> fst) (main zero_args identity_rng music_world) = Some 2 \<and>
   map_option (exit_status \<circ> fst) (main no_count_args identity_rng music_world) = Some 2"
proof -
  have a1: "\<not> arg_list zero_args" and a2: "arg_count zero_args = Some 0"
    by (simp_all add: zero_args_def)
  have b1: "\<not> arg_list no_count_args" and b2: "arg_count no_count_args = None"
    by (simp_all add: no_count_args_def zero_args_def)
  have a3: "arg_count zero_args = None \<or> (\<exists>n. arg_count zero_args = Some n \<and> n < 1)"
    using a2 by simp
  have b3: "arg_count no_count_args = None \<or> (\<exists>n. arg_count no_count_args = Some n \<and> n < 1)"
    using b2 by simp
  have c1: "map_option (exit_status \<circ> fst) (main zero_args identity_rng music_world) = Some 2"
    by code_simp
  have c2: "map_option (exit_status \<circ> fst) (main no_count_args identity_rng music_world) = Some 2"
    by code_simp
  from invalid_count_is_fatal [OF a1 a3, of identity_rng music_world]
    invalid_count_is_fatal [OF b1 b3, of identity_rng music_world]
    a1 a2 b1 b2 c1 c2
  show ?thesis by simp
qed

text \<open>
  Claim C8 as it is written fails when \<^verbatim>\<open>--list\<close> is given, since the count is not
  looked at then: \<^verbatim>\<open>--list --count 0\<close> prints the
  configured genres and ends with exit status 0 (\<^verbatim>\<open>main\<close> returns from the listing branch
  before the checks of the count).
\<close>

theorem count_ignored_when_listing:
  "arg_list list_zero_args \<and> arg_count list_zero_args = Some 0 \<and> (0::int) < 1 \<and>
   map_option (exit_status \<circ> fst) (main list_zero_args identity_rng music_world) = Some 0 \<and>
   map_option (stdout \<circ> snd) (main list_zero_args identity_rng music_world) =
     Some [''Configured genres:'', ''  JAZZ: /music/jazz [NOT FOUND]'',
           ''  ROCK: /music/rock [OK]''] \<and>
   map_option (stderr \<circ> snd) (main list_zero_args identity_rng music_world) = Some []"
proof -
  have "arg_list list_zero_args" "arg_count list_zero_args = Some 0"
    by (simp_all add: list_zero_args_def zero_args_def)
  moreover have
    "map_option (exit_status \<circ> fst) (main list_zero_args identity_rng music_world) = Some 0"
    by code_simp
  moreover have "map_option (stdout \<circ> snd) (main list_zero_args identity_rng music_world) =
     Some [''Configured genres:'', ''  JAZZ: /music/jazz [NOT FOUND]'',
           ''  ROCK: /music/rock [OK]'']"
    by code_simp
  moreover have
    "map_option (stderr \<circ> snd) (main list_zero_args identity_rng music_world) = Some []"
    by code_simp
  ultimately show ?thesis by simp
qed

section \<open>A requested count above the number of songs\<close>



















end
